theory Spec2Isabelle
  imports Complex_Main
begin

section \<open>Expense tracker: insight aggregation, health scoring, period resolution\<close>

text \<open>
  A shallow embedding of \<^verbatim>\<open>src/mastra/tools/expense-insights.ts\<close> and of the
  expense-ingestion tool with its fallback parser.

  Conventions of the embedding:
  \<^item> a JavaScript number that the insight tool computes with is an IEEE double (the
    type \<open>number\<close> below: a finite value, an infinity or \<^verbatim>\<open>NaN\<close>), and every
    operation on it rounds as the double arithmetic does; a time value, a score and a
    count are whole numbers (\<^typ>\<open>int\<close>, \<^typ>\<open>nat\<close>); the amounts stored in the
    database are decimals (\<^typ>\<open>rat\<close>), and so are the amount and the confidence of
    the ingestion tool, which are held as the values that their digits denote;
  \<^item> a thrown exception is the \<open>Inl\<close> branch of a sum type;
  \<^item> database text columns are \<^typ>\<open>string\<close>; the free text handed to the fallback
    parser is a list of UTF-16 code units, which is what a JavaScript string is.
\<close>

datatype error = RangeError | TypeError | Error string

subsection \<open>Calendar arithmetic of the JavaScript \<^verbatim>\<open>Date\<close> object\<close>

text \<open>
  The period resolver works on \<^verbatim>\<open>Date\<close> objects. A \<^verbatim>\<open>Date\<close> is its time value,
  the milliseconds since 1970-01-01T00:00Z; the functions below are the abstract
  operations of the ECMAScript specification (section "Date Objects") by their names
  there.
\<close>

definition msPerDay :: int where
  "msPerDay = 86400000"

definition Day :: "int \<Rightarrow> int" where
  "Day t = t div msPerDay"

definition TimeWithinDay :: "int \<Rightarrow> int" where
  "TimeWithinDay t = t mod msPerDay"

definition DaysInYear :: "int \<Rightarrow> int" where
  "DaysInYear y =
     (if y mod 4 \<noteq> 0 then 365
      else if y mod 100 \<noteq> 0 then 366
      else if y mod 400 \<noteq> 0 then 365
      else 366)"

definition DayFromYear :: "int \<Rightarrow> int" where
  "DayFromYear y =
     365 * (y - 1970) + (y - 1969) div 4 - (y - 1901) div 100 + (y - 1601) div 400"

lemma div_pred:
  fixes y k :: int
  assumes k: "0 < k"
  shows "y div k = (y - 1) div k + (if y mod k = 0 then 1 else 0)"
proof (cases "y mod k = 0")
  case True
  have "k * (y div k) = y"
    using True mult_div_mod_eq [of k y] by simp
  then have "y - 1 = k * (y div k - 1) + (k - 1)"
    by (simp add: algebra_simps)
  then have "(y - 1) div k = y div k - 1"
    by (rule int_div_pos_eq) (use k in simp_all)
  with True show ?thesis by simp
next
  case False
  have r: "0 \<le> y mod k" "y mod k < k" using k by simp_all
  have "y - 1 = k * (y div k) + (y mod k - 1)" by simp
  then have "(y - 1) div k = y div k"
    by (rule int_div_pos_eq) (use r False in simp_all)
  with False show ?thesis by simp
qed

lemma div_shift_pred:
  fixes y k c :: int
  assumes k: "0 < k"
  shows "(y - k * c) div k = (y - (k * c + 1)) div k + (if y mod k = 0 then 1 else 0)"
proof -
  have "(y - k * c) mod k = y mod k"
    by (metis mod_diff_right_eq mod_mult_self1_is_0 diff_zero mod_mod_trivial)
  then show ?thesis
    using div_pred [OF k, of "y - k * c"] by (simp add: algebra_simps)
qed

lemma DayFromYear_next: "DayFromYear (y + 1) = DayFromYear y + DaysInYear y"
proof -
  define i4 :: int where "i4 = (if y mod 4 = 0 then 1 else 0)"
  define i100 :: int where "i100 = (if y mod 100 = 0 then 1 else 0)"
  define i400 :: int where "i400 = (if y mod 400 = 0 then 1 else 0)"
  have d4: "(y - 1968) div 4 = (y - 1969) div 4 + i4"
    using div_shift_pred [of 4 y 492] by (simp add: i4_def)
  have d100: "(y - 1900) div 100 = (y - 1901) div 100 + i100"
    using div_shift_pred [of 100 y 19] by (simp add: i100_def)
  have d400: "(y - 1600) div 400 = (y - 1601) div 400 + i400"
    using div_shift_pred [of 400 y 4] by (simp add: i400_def)
  have b: "y mod 100 = 0 \<Longrightarrow> y mod 4 = 0"
    using mod_mod_cancel [of 4 100 y] by simp
  have a: "y mod 400 = 0 \<Longrightarrow> y mod 100 = 0"
    using mod_mod_cancel [of 100 400 y] by simp
  have "DayFromYear (y + 1) =
      365 * (y - 1969) + (y - 1968) div 4 - (y - 1900) div 100 + (y - 1600) div 400"
    by (simp add: DayFromYear_def)
  also have "\<dots> = DayFromYear y + (365 + i4 - i100 + i400)"
    by (simp only: d4 d100 d400 DayFromYear_def) simp
  also have "365 + i4 - i100 + i400 = DaysInYear y"
    using a b by (simp add: DaysInYear_def i4_def i100_def i400_def)
  finally show ?thesis .
qed

lemma DaysInYear_bounds: "365 \<le> DaysInYear y" "DaysInYear y \<le> 366"
  by (simp_all add: DaysInYear_def)

text \<open>
  ECMAScript defines \<open>YearFromTime t\<close> as the largest year \<open>y\<close> with
  \<open>DayFromYear y \<le> Day t\<close>. It is computed here by a search upwards from an estimate
  that lies at or below that year; \<open>year_of_day_bracket\<close> below shows that the result
  is the year of the specification.
\<close>

function year_search :: "int \<Rightarrow> int \<Rightarrow> int" where
  "year_search n y = (if DayFromYear (y + 1) \<le> n then year_search n (y + 1) else y)"
  by pat_completeness auto
termination
proof (relation "measure (\<lambda>(n, y). nat (n + 1 - DayFromYear (y + 1)))")
  show "wf (measure (\<lambda>(n, y). nat (n + 1 - DayFromYear (y + 1))))" by simp
next
  fix n y :: int
  assume "DayFromYear (y + 1) \<le> n"
  moreover have "DayFromYear (y + 1 + 1) = DayFromYear (y + 1) + DaysInYear (y + 1)"
    by (rule DayFromYear_next)
  moreover have "365 \<le> DaysInYear (y + 1)" by (rule DaysInYear_bounds)
  ultimately show "((n, y + 1), (n, y)) \<in> measure (\<lambda>(n, y). nat (n + 1 - DayFromYear (y + 1)))"
    by simp
qed

declare year_search.simps [simp del]

definition year_of_day :: "int \<Rightarrow> int" where
  "year_of_day n = year_search n (1970 + (if 0 \<le> n then n div 366 else n div 365))"

lemma year_search_bracket:
  "DayFromYear y \<le> n \<Longrightarrow>
   DayFromYear (year_search n y) \<le> n \<and> n < DayFromYear (year_search n y + 1)"
proof (induction n y rule: year_search.induct)
  case (1 n y)
  show ?case
  proof (cases "DayFromYear (y + 1) \<le> n")
    case True
    with "1.IH" show ?thesis by (subst (1 2) year_search.simps) simp
  next
    case False
    with "1.prems" show ?thesis by (subst (1 2) year_search.simps) simp
  qed
qed

lemma DayFromYear_1970: "DayFromYear 1970 = 0"
  by (simp add: DayFromYear_def)

lemma DayFromYear_upper: "0 \<le> k \<Longrightarrow> DayFromYear (1970 + k) \<le> 366 * k"
proof (induction k rule: int_ge_induct)
  case base
  show ?case by (simp add: DayFromYear_1970)
next
  case (step i)
  have "DayFromYear (1970 + (i + 1)) = DayFromYear (1970 + i) + DaysInYear (1970 + i)"
    using DayFromYear_next [of "1970 + i"] by (simp add: add.assoc)
  with step.IH DaysInYear_bounds(2) [of "1970 + i"] show ?case by simp
qed

lemma DayFromYear_lower: "k \<le> 0 \<Longrightarrow> DayFromYear (1970 + k) \<le> 365 * k"
proof (induction k rule: int_le_induct)
  case base
  show ?case by (simp add: DayFromYear_1970)
next
  case (step i)
  have "DayFromYear (1970 + i) = DayFromYear (1970 + (i - 1)) + DaysInYear (1970 + (i - 1))"
    using DayFromYear_next [of "1970 + (i - 1)"] by simp
  with step.IH DaysInYear_bounds(1) [of "1970 + (i - 1)"] show ?case by simp
qed

lemma year_of_day_bracket:
  "DayFromYear (year_of_day n) \<le> n \<and> n < DayFromYear (year_of_day n + 1)"
proof -
  let ?k = "if 0 \<le> n then n div 366 else n div 365"
  have "DayFromYear (1970 + ?k) \<le> n"
  proof (cases "0 \<le> n")
    case True
    then have "0 \<le> n div 366" by simp
    then have "DayFromYear (1970 + n div 366) \<le> 366 * (n div 366)" by (rule DayFromYear_upper)
    also have "\<dots> \<le> n" by simp
    finally show ?thesis using True by simp
  next
    case False
    then have "n div 365 < 0" by (simp add: pos_imp_zdiv_neg_iff)
    then have "n div 365 \<le> 0" by simp
    then have "DayFromYear (1970 + n div 365) \<le> 365 * (n div 365)" by (rule DayFromYear_lower)
    also have "\<dots> \<le> n" by simp
    finally show ?thesis using False by simp
  qed
  then show ?thesis unfolding year_of_day_def by (rule year_search_bracket)
qed

definition YearFromTime :: "int \<Rightarrow> int" where
  "YearFromTime t = year_of_day (Day t)"

definition InLeapYear :: "int \<Rightarrow> int" where
  "InLeapYear t = DaysInYear (YearFromTime t) - 365"

definition DayWithinYear :: "int \<Rightarrow> int" where
  "DayWithinYear t = Day t - DayFromYear (YearFromTime t)"

text \<open>The day within the year on which month \<open>m\<close> (0 to 11) starts; \<open>l\<close> is 1 in a leap year.\<close>

definition month_start :: "int \<Rightarrow> int \<Rightarrow> int" where
  "month_start l m =
     (if m = 0 then 0 else if m = 1 then 31 else if m = 2 then 59 + l
      else if m = 3 then 90 + l else if m = 4 then 120 + l else if m = 5 then 151 + l
      else if m = 6 then 181 + l else if m = 7 then 212 + l else if m = 8 then 243 + l
      else if m = 9 then 273 + l else if m = 10 then 304 + l else 334 + l)"

definition MonthFromTime :: "int \<Rightarrow> int" where
  "MonthFromTime t =
     (let d = DayWithinYear t; l = InLeapYear t in
      if d < 31 then 0 else if d < 59 + l then 1 else if d < 90 + l then 2
      else if d < 120 + l then 3 else if d < 151 + l then 4 else if d < 181 + l then 5
      else if d < 212 + l then 6 else if d < 243 + l then 7 else if d < 273 + l then 8
      else if d < 304 + l then 9 else if d < 334 + l then 10 else 11)"

definition DateFromTime :: "int \<Rightarrow> int" where
  "DateFromTime t = DayWithinYear t - month_start (InLeapYear t) (MonthFromTime t) + 1"

definition WeekDay :: "int \<Rightarrow> int" where
  "WeekDay t = (Day t + 4) mod 7"

text \<open>
  \<open>MakeDay\<close> accepts any month and day of month: months beyond 0..11 carry into the
  year, days beyond the month carry into the neighbouring months. The code relies on
  this (\<^verbatim>\<open>new Date(y, m + 1, 0)\<close> is the last day of month \<open>m\<close>).
\<close>

definition MakeDay :: "int \<Rightarrow> int \<Rightarrow> int \<Rightarrow> int" where
  "MakeDay yr mo dt =
     (let ym = yr + mo div 12; mn = mo mod 12 in
      DayFromYear ym + month_start (DaysInYear ym - 365) mn + dt - 1)"

definition MakeDate :: "int \<Rightarrow> int \<Rightarrow> int" where
  "MakeDate dy tm = dy * msPerDay + tm"

text \<open>
  The local time zone is a parameter \<open>tz\<close> of everything that reads or writes local
  time. A zone is the offset of local time from UTC, in milliseconds, before its first
  change, and the changes in ascending order: the UTC instant of a change and the
  offset from then on. A zone without changes keeps one offset (a server running in
  UTC, or India); a zone with daylight saving has two changes a year.

  \<open>LocalTZA tz t True\<close> is the offset at the UTC instant \<open>t\<close>. \<open>LocalTZA tz t False\<close> is
  the offset by which the local time value \<open>t\<close> is read; ECMAScript fixes that a local
  time skipped or repeated by a change is read with the offset before the change.
\<close>

record zone =
  base_offset :: int
  changes :: "(int \<times> int) list"

fun offset_at_utc :: "int \<Rightarrow> (int \<times> int) list \<Rightarrow> int \<Rightarrow> int" where
  "offset_at_utc off [] t = off"
| "offset_at_utc off ((u, off') # rest) t =
     (if u \<le> t then offset_at_utc off' rest t else off)"

fun offset_at_local :: "int \<Rightarrow> (int \<times> int) list \<Rightarrow> int \<Rightarrow> int" where
  "offset_at_local off [] t = off"
| "offset_at_local off ((u, off') # rest) t =
     (if u + max off off' \<le> t then offset_at_local off' rest t else off)"

definition LocalTZA :: "zone \<Rightarrow> int \<Rightarrow> bool \<Rightarrow> int" where
  "LocalTZA tz t isUTC =
     (if isUTC then offset_at_utc (base_offset tz) (changes tz) t
      else offset_at_local (base_offset tz) (changes tz) t)"

definition LocalTime :: "zone \<Rightarrow> int \<Rightarrow> int" where
  "LocalTime tz t = t + LocalTZA tz t True"

definition UTC :: "zone \<Rightarrow> int \<Rightarrow> int" where
  "UTC tz t = t - LocalTZA tz t False"

text \<open>The zone that keeps the offset \<open>off\<close> for ever.\<close>

definition fixed_offset :: "int \<Rightarrow> zone" where
  "fixed_offset off = \<lparr>base_offset = off, changes = []\<rparr>"

text \<open>
  The rules of two zones with daylight saving for the year 2024. New York is 5 hours
  behind UTC, and 4 hours from 2024-03-10 07:00 UTC to 2024-11-03 06:00 UTC. London is
  on UTC, and 1 hour ahead from 2024-03-31 01:00 UTC to 2024-10-27 01:00 UTC.
\<close>

definition America_New_York_2024 :: zone where
  "America_New_York_2024 =
     \<lparr>base_offset = - 18000000,
      changes = [(1710054000000, - 14400000), (1730613600000, - 18000000)]\<rparr>"

definition Europe_London_2024 :: zone where
  "Europe_London_2024 =
     \<lparr>base_offset = 0,
      changes = [(1711846800000, 3600000), (1729990800000, 0)]\<rparr>"

definition getFullYear :: "zone \<Rightarrow> int \<Rightarrow> int" where
  "getFullYear tz t = YearFromTime (LocalTime tz t)"

definition getMonth :: "zone \<Rightarrow> int \<Rightarrow> int" where
  "getMonth tz t = MonthFromTime (LocalTime tz t)"

definition getDate :: "zone \<Rightarrow> int \<Rightarrow> int" where
  "getDate tz t = DateFromTime (LocalTime tz t)"

definition getDay :: "zone \<Rightarrow> int \<Rightarrow> int" where
  "getDay tz t = WeekDay (LocalTime tz t)"

text \<open>
  A time value lies at most 8,640,000,000,000,000 milliseconds (100,000,000 days) from
  the epoch. \<open>TimeClip\<close> turns anything beyond into \<^verbatim>\<open>NaN\<close>, here \<open>None\<close>; a
  \<^verbatim>\<open>Date\<close> with that time value is an invalid \<^verbatim>\<open>Date\<close>.
\<close>

definition TimeClip :: "int \<Rightarrow> int option" where
  "TimeClip t = (if \<bar>t\<bar> \<le> 8640000000000000 then Some t else None)"

text \<open>
  \<^verbatim>\<open>d.setDate(dt)\<close> on a valid \<^verbatim>\<open>Date\<close> with time value \<open>t\<close>: the day of the month is
  replaced, in local time.
\<close>

definition setDate :: "zone \<Rightarrow> int \<Rightarrow> int \<Rightarrow> int option" where
  "setDate tz t dt =
     (let lt = LocalTime tz t in
      TimeClip
        (UTC tz (MakeDate (MakeDay (YearFromTime lt) (MonthFromTime lt) dt) (TimeWithinDay lt))))"

text \<open>
  \<^verbatim>\<open>new Date(year, month, date)\<close>: local midnight of that day; a year from 0 to 99
  means 1900 + year.
\<close>

definition Date_ymd :: "zone \<Rightarrow> int \<Rightarrow> int \<Rightarrow> int \<Rightarrow> int option" where
  "Date_ymd tz y m dt =
     (let yr = (if 0 \<le> y \<and> y \<le> 99 then 1900 + y else y) in
      TimeClip (UTC tz (MakeDate (MakeDay yr m dt) 0)))"

text \<open>
  A calendar date as it crosses the boundary in the form \<^verbatim>\<open>YYYY-MM-DD\<close>: the three
  numbers of the string, the month counted from 1.
\<close>

record date =
  year :: int
  month :: int
  day :: int

definition days_in_month :: "int \<Rightarrow> int \<Rightarrow> int" where
  "days_in_month y m =
     (if m = 2 then 28 + (DaysInYear y - 365)
      else if m = 4 \<or> m = 6 \<or> m = 9 \<or> m = 11 then 30 else 31)"

definition valid_date :: "date \<Rightarrow> bool" where
  "valid_date d \<longleftrightarrow>
     1 \<le> month d \<and> month d \<le> 12 \<and> 1 \<le> day d \<and> day d \<le> days_in_month (year d) (month d)"

text \<open>The number of the day (days since 1970-01-01) that a calendar date names.\<close>

definition days_of_date :: "date \<Rightarrow> int" where
  "days_of_date d = MakeDay (year d) (month d - 1) (day d)"

text \<open>
  \<^verbatim>\<open>d.toISOString().split('T')[0]\<close> on a valid \<^verbatim>\<open>Date\<close>: the calendar date of the
  instant in UTC. (On an invalid \<^verbatim>\<open>Date\<close>, \<^verbatim>\<open>toISOString\<close> throws a
  \<^verbatim>\<open>RangeError\<close>.)
\<close>

definition toISODate :: "int \<Rightarrow> date" where
  "toISODate t =
     \<lparr>year = YearFromTime t, month = MonthFromTime t + 1, day = DateFromTime t\<rparr>"

text \<open>
  \<^verbatim>\<open>new Date(s)\<close> for a date-only string (the year written with four digits, or with
  a sign and six digits): midnight UTC of that day. Node accepts a day of the month up
  to 31 in every month and carries the days beyond the end of the month into the next
  one (\<^verbatim>\<open>2024-02-30\<close> is read as 1 March). A month outside 1 to 12, a day outside 1 to
  31 or a day beyond the range of time values gives an invalid \<^verbatim>\<open>Date\<close>, here
  \<open>None\<close>.
\<close>

definition Date_parse :: "date \<Rightarrow> int option" where
  "Date_parse d =
     (if 1 \<le> month d \<and> month d \<le> 12 \<and> 1 \<le> day d \<and> day d \<le> 31
      then TimeClip (MakeDate (days_of_date d) 0) else None)"

subsection \<open>The period resolver\<close>

text \<open>
  Lines 81 to 126 of \<^verbatim>\<open>expenseInsightsTool.execute\<close>. \<open>today\<close> is the time value of
  \<^verbatim>\<open>new Date()\<close>. \<open>startDate\<close> and \<open>endDate\<close> are the optional request fields
  (\<open>None\<close> when omitted or empty).

  Every \<^verbatim>\<open>Date\<close> that the resolver makes reaches \<^verbatim>\<open>toISOString\<close>, which throws a
  \<^verbatim>\<open>RangeError\<close> on an invalid \<^verbatim>\<open>Date\<close>; a \<^verbatim>\<open>Date\<close> copied from an invalid one or
  set from its fields is invalid again. So the resolver ends in that error as soon as
  one of its dates is invalid. In the custom branch an unparseable bound makes
  \<^verbatim>\<open>daysDiff\<close> or \<^verbatim>\<open>prevEnd\<close> \<^verbatim>\<open>NaN\<close>, so that \<^verbatim>\<open>prevStart\<close> is invalid.
\<close>

datatype analysis_type = monthly | weekly | yearly | custom

record periods =
  currentStartDate :: date
  currentEndDate :: date
  previousStartDate :: date
  previousEndDate :: date

definition resolvePeriod ::
  "zone \<Rightarrow> int \<Rightarrow> analysis_type \<Rightarrow> date option \<Rightarrow> date option \<Rightarrow> error + periods" where
  "resolvePeriod tz today analysisType startDate endDate =
     (if analysisType = monthly then
        (case (Date_ymd tz (getFullYear tz today) (getMonth tz today) 1,
               Date_ymd tz (getFullYear tz today) (getMonth tz today + 1) 0,
               Date_ymd tz (getFullYear tz today) (getMonth tz today - 1) 1,
               Date_ymd tz (getFullYear tz today) (getMonth tz today) 0) of
           (Some firstDayOfMonth, Some lastDayOfMonth, Some prevMonth, Some prevMonthEnd) \<Rightarrow>
             Inr \<lparr>currentStartDate = toISODate firstDayOfMonth,
                  currentEndDate = toISODate lastDayOfMonth,
                  previousStartDate = toISODate prevMonth,
                  previousEndDate = toISODate prevMonthEnd\<rparr>
         | _ \<Rightarrow> Inl RangeError)
      else if analysisType = weekly then
        (case setDate tz today (getDate tz today - getDay tz today) of
           None \<Rightarrow> Inl RangeError
         | Some weekStart \<Rightarrow>
        (case setDate tz weekStart (getDate tz weekStart + 6) of
           None \<Rightarrow> Inl RangeError
         | Some weekEnd \<Rightarrow>
        (case (setDate tz weekStart (getDate tz weekStart - 7),
               setDate tz weekEnd (getDate tz weekEnd - 7)) of
           (Some prevWeekStart, Some prevWeekEnd) \<Rightarrow>
             Inr \<lparr>currentStartDate = toISODate weekStart,
                  currentEndDate = toISODate weekEnd,
                  previousStartDate = toISODate prevWeekStart,
                  previousEndDate = toISODate prevWeekEnd\<rparr>
         | _ \<Rightarrow> Inl RangeError)))
      else if analysisType = yearly then
        Inr \<lparr>currentStartDate = \<lparr>year = getFullYear tz today, month = 1, day = 1\<rparr>,
             currentEndDate = \<lparr>year = getFullYear tz today, month = 12, day = 31\<rparr>,
             previousStartDate = \<lparr>year = getFullYear tz today - 1, month = 1, day = 1\<rparr>,
             previousEndDate = \<lparr>year = getFullYear tz today - 1, month = 12, day = 31\<rparr>\<rparr>
      else
        let currentStartDate = (case startDate of Some s \<Rightarrow> s | None \<Rightarrow> toISODate today);
            currentEndDate = (case endDate of Some e \<Rightarrow> e | None \<Rightarrow> toISODate today)
        in case (Date_parse currentStartDate, Date_parse currentEndDate) of
             (Some startTime, Some endTime) \<Rightarrow>
               (let daysDiff = (endTime - startTime) div msPerDay in
                case setDate tz startTime (getDate tz startTime - 1) of
                  None \<Rightarrow> Inl RangeError
                | Some prevEnd \<Rightarrow>
               (case setDate tz prevEnd (getDate tz prevEnd - daysDiff) of
                  None \<Rightarrow> Inl RangeError
                | Some prevStart \<Rightarrow>
                    Inr \<lparr>currentStartDate = currentStartDate,
                         currentEndDate = currentEndDate,
                         previousStartDate = toISODate prevStart,
                         previousEndDate = toISODate prevEnd\<rparr>))
           | _ \<Rightarrow> Inl RangeError)"

text \<open>Intervals of calendar dates, closed at both ends.\<close>

definition interval_length :: "date \<Rightarrow> date \<Rightarrow> int" where
  "interval_length s e = days_of_date e - days_of_date s + 1"

definition date_in :: "date \<Rightarrow> date \<Rightarrow> date \<Rightarrow> bool" where
  "date_in d s e \<longleftrightarrow> days_of_date s \<le> days_of_date d \<and> days_of_date d \<le> days_of_date e"

definition disjoint_periods :: "periods \<Rightarrow> bool" where
  "disjoint_periods p \<longleftrightarrow>
     (\<forall>d. \<not> (date_in d (previousStartDate p) (previousEndDate p) \<and>
               date_in d (currentStartDate p) (currentEndDate p)))"

text \<open>
  The conditions under which the claims below are stated. A clock time is a time value
  at least 62 days away from both ends of the range of time values. A zone is plain
  when none of its offsets exceeds a day. A date has a year of four digits when its
  year is one of 1 to 9999, the years that both the form \<^verbatim>\<open>YYYY-MM-DD\<close> of the
  request and the dates of the database have.
\<close>

definition clock_time :: "int \<Rightarrow> bool" where
  "clock_time t \<longleftrightarrow> \<bar>t\<bar> \<le> 8640000000000000 - 62 * msPerDay"

definition zone_offsets :: "zone \<Rightarrow> int list" where
  "zone_offsets tz = base_offset tz # map snd (changes tz)"

definition plain_zone :: "zone \<Rightarrow> bool" where
  "plain_zone tz \<longleftrightarrow> list_all (\<lambda>off. \<bar>off\<bar> \<le> msPerDay) (zone_offsets tz)"

definition four_digit_year :: "date \<Rightarrow> bool" where
  "four_digit_year d \<longleftrightarrow> 1 \<le> year d \<and> year d \<le> 9999"

subsection \<open>Facts about the calendar and the resolver\<close>

lemma MonthFromTime_range: "0 \<le> MonthFromTime t \<and> MonthFromTime t \<le> 11"
  by (simp add: MonthFromTime_def Let_def)

lemma MakeDay_roundtrip:
  "MakeDay (YearFromTime t) (MonthFromTime t) (DateFromTime t) = Day t"
proof -
  have "MonthFromTime t div 12 = 0" "MonthFromTime t mod 12 = MonthFromTime t"
    using MonthFromTime_range [of t] by simp_all
  then show ?thesis
    by (simp add: MakeDay_def DateFromTime_def DayWithinYear_def InLeapYear_def)
qed

lemma MakeDay_add: "MakeDay y m (d + k) = MakeDay y m d + k"
  by (simp add: MakeDay_def Let_def)

lemma days_of_date_toISODate: "days_of_date (toISODate t) = Day t"
  by (simp add: days_of_date_def toISODate_def MakeDay_roundtrip)

lemma Day_add_days: "Day (t + k * msPerDay) = Day t + k"
  by (simp add: Day_def msPerDay_def)

lemma Day_TimeWithinDay: "Day t * msPerDay + TimeWithinDay t = t"
  by (simp add: Day_def TimeWithinDay_def)

lemma LocalTime_fixed: "LocalTime (fixed_offset off) t = t + off"
  by (simp add: LocalTime_def LocalTZA_def fixed_offset_def)

lemma UTC_fixed: "UTC (fixed_offset off) t = t - off"
  by (simp add: UTC_def LocalTZA_def fixed_offset_def)


lemma DayFromYear_pred: "DayFromYear y = DayFromYear (y - 1) + DaysInYear (y - 1)"
  using DayFromYear_next [of "y - 1"] by simp

lemma Day_of_midnight: "Day (MakeDate n 0) = n"
  by (simp add: Day_def MakeDate_def msPerDay_def)

lemma DayFromYear_mono: "y \<le> y' \<Longrightarrow> DayFromYear y \<le> DayFromYear y'"
proof (induction y' rule: int_ge_induct)
  case base
  show ?case by simp
next
  case (step i)
  with DayFromYear_next [of i] DaysInYear_bounds(1) [of i] show ?case by simp
qed

lemma year_of_day_eq:
  assumes "DayFromYear y \<le> n" "n < DayFromYear (y + 1)"
  shows "year_of_day n = y"
proof (rule ccontr)
  assume ne: "year_of_day n \<noteq> y"
  have b: "DayFromYear (year_of_day n) \<le> n" "n < DayFromYear (year_of_day n + 1)"
    using year_of_day_bracket [of n] by simp_all
  show False
  proof (cases "year_of_day n < y")
    case True
    then have "DayFromYear (year_of_day n + 1) \<le> DayFromYear y"
      by (intro DayFromYear_mono) simp
    with b(2) assms(1) show False by simp
  next
    case False
    with ne have "DayFromYear (y + 1) \<le> DayFromYear (year_of_day n)"
      by (intro DayFromYear_mono) simp
    with b(1) assms(2) show False by simp
  qed
qed

lemma month_cases:
  fixes m :: int
  assumes "1 \<le> m" "m \<le> 12"
  shows "m = 1 \<or> m = 2 \<or> m = 3 \<or> m = 4 \<or> m = 5 \<or> m = 6 \<or> m = 7 \<or> m = 8 \<or> m = 9
       \<or> m = 10 \<or> m = 11 \<or> m = 12"
  using assms by arith

lemma toISODate_days_of_date:
  assumes v: "valid_date d"
  shows "toISODate (MakeDate (days_of_date d) 0) = d"
proof -
  define l where "l = DaysInYear (year d) - 365"
  define w where "w = month_start l (month d - 1) + day d - 1"
  have l: "0 \<le> l" "l \<le> 1" by (simp_all add: l_def DaysInYear_def)
  have m: "1 \<le> month d" "month d \<le> 12" and dd: "1 \<le> day d"
      "day d \<le> days_in_month (year d) (month d)"
    using v by (simp_all add: valid_date_def)
  have mm: "(month d - 1) div 12 = 0" "(month d - 1) mod 12 = month d - 1"
    using m by simp_all
  have n: "days_of_date d = DayFromYear (year d) + w"
    by (simp add: days_of_date_def MakeDay_def Let_def mm w_def l_def)
  have w: "0 \<le> w \<and> w < 365 + l"
    using month_cases [OF m]
    by (elim disjE) (use dd l in \<open>simp_all add: w_def month_start_def days_in_month_def
        l_def [symmetric]\<close>)
  have y: "year_of_day (days_of_date d) = year d"
  proof (rule year_of_day_eq)
    show "DayFromYear (year d) \<le> days_of_date d" using w n by simp
    show "days_of_date d < DayFromYear (year d + 1)"
      using w n by (simp add: DayFromYear_next l_def)
  qed
  have Y: "YearFromTime (MakeDate (days_of_date d) 0) = year d"
    by (simp add: YearFromTime_def Day_of_midnight y)
  have L: "InLeapYear (MakeDate (days_of_date d) 0) = l"
    by (simp add: InLeapYear_def Y l_def)
  have W: "DayWithinYear (MakeDate (days_of_date d) 0) = w"
    by (simp only: DayWithinYear_def Y Day_of_midnight) (simp add: n)
  have M: "MonthFromTime (MakeDate (days_of_date d) 0) = month d - 1"
    unfolding MonthFromTime_def L W Let_def
    using month_cases [OF m]
    by (elim disjE) (use dd l in \<open>simp_all add: w_def month_start_def days_in_month_def
        l_def [symmetric]\<close>)
  have D: "DateFromTime (MakeDate (days_of_date d) 0) = day d"
    by (simp add: DateFromTime_def L W M w_def)
  show ?thesis
    by (simp add: toISODate_def Y M D)
qed

lemma adjacent_disjoint:
  "days_of_date (previousEndDate p) + 1 = days_of_date (currentStartDate p) \<Longrightarrow> disjoint_periods p"
  by (auto simp: disjoint_periods_def date_in_def)

lemma DayWithinYear_range: "0 \<le> DayWithinYear t \<and> DayWithinYear t < 365 + InLeapYear t"
  using year_of_day_bracket [of "Day t"] DayFromYear_next [of "YearFromTime t"]
  by (simp add: DayWithinYear_def InLeapYear_def YearFromTime_def)

lemma valid_toISODate: "valid_date (toISODate t)"
proof -
  define w where "w = DayWithinYear t"
  define l where "l = InLeapYear t"
  have l: "0 \<le> l" "l \<le> 1" by (simp_all add: l_def InLeapYear_def DaysInYear_def)
  have w: "0 \<le> w" "w < 365 + l" using DayWithinYear_range [of t] by (simp_all add: w_def l_def)
  have dm: "days_in_month (YearFromTime t) m = (if m = 2 then 28 + l
      else if m = 4 \<or> m = 6 \<or> m = 9 \<or> m = 11 then 30 else 31)" for m
    by (simp add: days_in_month_def l_def InLeapYear_def)
  show ?thesis
    unfolding valid_date_def toISODate_def DateFromTime_def MonthFromTime_def Let_def
      w_def [symmetric] l_def [symmetric]
    using w l by (simp add: dm month_start_def)
qed


lemma TimeClip_Some: "\<bar>t\<bar> \<le> 8640000000000000 \<Longrightarrow> TimeClip t = Some t"
  by (simp add: TimeClip_def)

lemma setDate_getDate:
  "setDate (fixed_offset off) t (getDate (fixed_offset off) t + k) = TimeClip (t + k * msPerDay)"
proof -
  let ?lt = "LocalTime (fixed_offset off) t"
  have "MakeDay (YearFromTime ?lt) (MonthFromTime ?lt) (DateFromTime ?lt + k) = Day ?lt + k"
    by (simp add: MakeDay_add MakeDay_roundtrip)
  then have "setDate (fixed_offset off) t (getDate (fixed_offset off) t + k) =
      TimeClip (UTC (fixed_offset off) ((Day ?lt + k) * msPerDay + TimeWithinDay ?lt))"
    by (simp add: setDate_def getDate_def MakeDate_def Let_def)
  also have "(Day ?lt + k) * msPerDay + TimeWithinDay ?lt = ?lt + k * msPerDay"
    using Day_TimeWithinDay [of ?lt] by (simp add: algebra_simps)
  also have "UTC (fixed_offset off) (?lt + k * msPerDay) = t + k * msPerDay"
    by (simp add: UTC_fixed LocalTime_fixed)
  finally show ?thesis .
qed

lemma WeekDay_range: "0 \<le> WeekDay t \<and> WeekDay t \<le> 6"
  by (simp add: WeekDay_def)

lemma offset_at_utc_bound:
  "\<bar>off\<bar> \<le> b \<Longrightarrow> list_all (\<lambda>off. \<bar>off\<bar> \<le> b) (map snd cs) \<Longrightarrow> \<bar>offset_at_utc off cs t\<bar> \<le> b"
  by (induction off cs t rule: offset_at_utc.induct) simp_all

lemma offset_at_local_bound:
  "\<bar>off\<bar> \<le> b \<Longrightarrow> list_all (\<lambda>off. \<bar>off\<bar> \<le> b) (map snd cs) \<Longrightarrow> \<bar>offset_at_local off cs t\<bar> \<le> b"
  by (induction off cs t rule: offset_at_local.induct) simp_all

lemma LocalTZA_bound: "plain_zone tz \<Longrightarrow> \<bar>LocalTZA tz t isUTC\<bar> \<le> msPerDay"
  by (simp add: plain_zone_def zone_offsets_def LocalTZA_def offset_at_utc_bound
      offset_at_local_bound)

lemma setDate_zone:
  assumes "plain_zone tz"
  shows "\<exists>u. setDate tz t (getDate tz t + k) = TimeClip u \<and>
     \<bar>u - (t + k * msPerDay)\<bar> \<le> 2 * msPerDay"
proof -
  let ?lt = "LocalTime tz t"
  let ?n = "?lt + k * msPerDay"
  have "MakeDay (YearFromTime ?lt) (MonthFromTime ?lt) (DateFromTime ?lt + k) = Day ?lt + k"
    by (simp add: MakeDay_add MakeDay_roundtrip)
  then have "setDate tz t (getDate tz t + k) =
      TimeClip (UTC tz ((Day ?lt + k) * msPerDay + TimeWithinDay ?lt))"
    by (simp add: setDate_def getDate_def MakeDate_def Let_def)
  also have "(Day ?lt + k) * msPerDay + TimeWithinDay ?lt = ?n"
    using Day_TimeWithinDay [of ?lt] by (simp add: algebra_simps)
  finally have s: "setDate tz t (getDate tz t + k) = TimeClip (UTC tz ?n)" .
  have "UTC tz ?n - (t + k * msPerDay) = LocalTZA tz t True - LocalTZA tz ?n False"
    by (simp add: UTC_def LocalTime_def)
  moreover have "\<bar>LocalTZA tz t True\<bar> \<le> msPerDay" "\<bar>LocalTZA tz ?n False\<bar> \<le> msPerDay"
    using assms by (simp_all add: LocalTZA_bound)
  ultimately have "\<bar>UTC tz ?n - (t + k * msPerDay)\<bar> \<le> 2 * msPerDay"
    by linarith
  with s show ?thesis by blast
qed


lemma setDate_zone_minus:
  assumes "plain_zone tz"
  shows "\<exists>u. setDate tz t (getDate tz t - k) = TimeClip u \<and>
     \<bar>u - (t - k * msPerDay)\<bar> \<le> 2 * msPerDay"
  using setDate_zone [OF assms, of t "- k"] by simp

lemma setDate_plus_Some:
  assumes "u = t + k * msPerDay" "\<bar>u\<bar> \<le> 8640000000000000"
  shows "setDate (fixed_offset off) t (getDate (fixed_offset off) t + k) = Some u"
  using assms by (simp add: setDate_getDate TimeClip_Some)

lemma setDate_minus_Some:
  assumes "u = t - k * msPerDay" "\<bar>u\<bar> \<le> 8640000000000000"
  shows "setDate (fixed_offset off) t (getDate (fixed_offset off) t - k) = Some u"
  using assms setDate_plus_Some [of u t "- k" off] by simp

lemma TimeWithinDay_range: "0 \<le> TimeWithinDay t \<and> TimeWithinDay t < msPerDay"
  by (simp add: TimeWithinDay_def msPerDay_def)

lemma DateFromTime_range: "1 \<le> DateFromTime t \<and> DateFromTime t \<le> 31"
  using valid_toISODate [of t]
  by (simp add: valid_date_def toISODate_def days_in_month_def DaysInYear_def split: if_splits)

lemma MakeDay_first: "MakeDay (YearFromTime t) (MonthFromTime t) 1 = Day t - (DateFromTime t - 1)"
  using MakeDay_add [of "YearFromTime t" "MonthFromTime t" "DateFromTime t" "1 - DateFromTime t"]
  by (simp add: MakeDay_roundtrip)

lemma month_index_cases:
  fixes m :: int
  assumes "- 1 \<le> m" "m \<le> 11"
  shows "m = - 1 \<or> m = 0 \<or> m = 1 \<or> m = 2 \<or> m = 3 \<or> m = 4 \<or> m = 5 \<or> m = 6 \<or> m = 7
       \<or> m = 8 \<or> m = 9 \<or> m = 10 \<or> m = 11"
  using assms by arith

lemma MakeDay_month_step:
  assumes "- 1 \<le> m" "m \<le> 11"
  shows "28 \<le> MakeDay y (m + 1) 1 - MakeDay y m 1 \<and> MakeDay y (m + 1) 1 - MakeDay y m 1 \<le> 31"
proof -
  have l: "0 \<le> DaysInYear y - 365" "DaysInYear y - 365 \<le> 1"
    using DaysInYear_bounds [of y] by simp_all
  from month_index_cases [OF assms] show ?thesis
    by (elim disjE)
      (use l DayFromYear_pred [of y] DayFromYear_next [of y] in
        \<open>simp_all add: MakeDay_def month_start_def Let_def\<close>)
qed

lemma MakeDay_zero: "MakeDay y m 0 = MakeDay y m 1 - 1"
  by (simp add: MakeDay_def Let_def)

lemma Date_ymd_fixed:
  "Date_ymd (fixed_offset off) y m d =
     TimeClip (MakeDay (if 0 \<le> y \<and> y \<le> 99 then 1900 + y else y) m d * msPerDay - off)"
  by (simp add: Date_ymd_def Let_def MakeDate_def UTC_fixed)


lemma first_of_month_bound:
  "today - 31 * msPerDay <
     MakeDay (YearFromTime (today + off)) (MonthFromTime (today + off)) 1 * msPerDay - off \<and>
   MakeDay (YearFromTime (today + off)) (MonthFromTime (today + off)) 1 * msPerDay - off \<le> today"
proof -
  let ?lt = "today + off"
  have "MakeDay (YearFromTime ?lt) (MonthFromTime ?lt) 1 * msPerDay =
      Day ?lt * msPerDay - (DateFromTime ?lt - 1) * msPerDay"
    by (simp add: MakeDay_first algebra_simps)
  also have "\<dots> = ?lt - TimeWithinDay ?lt - (DateFromTime ?lt - 1) * msPerDay"
    using Day_TimeWithinDay [of ?lt] by simp
  finally have e: "MakeDay (YearFromTime ?lt) (MonthFromTime ?lt) 1 * msPerDay - off =
      today - TimeWithinDay ?lt - (DateFromTime ?lt - 1) * msPerDay"
    by simp
  have "0 \<le> (DateFromTime ?lt - 1) * msPerDay" "(DateFromTime ?lt - 1) * msPerDay \<le> 30 * msPerDay"
    using DateFromTime_range [of ?lt] by (simp_all add: msPerDay_def)
  with TimeWithinDay_range [of ?lt] show ?thesis
    unfolding e by (simp add: msPerDay_def)
qed

lemma MakeDay_1900s:
  assumes "1900 \<le> yr" "yr \<le> 1999" "0 \<le> m" "m \<le> 11"
  shows "- 26000 \<le> MakeDay yr m 1 \<and> MakeDay yr m 1 \<le> 11000"
proof -
  have "DayFromYear 1900 \<le> DayFromYear yr" "DayFromYear yr \<le> DayFromYear 1999"
    using assms by (simp_all add: DayFromYear_mono)
  moreover have "DayFromYear 1900 = - 25567" "DayFromYear 1999 = 10592"
    by (simp_all add: DayFromYear_def)
  moreover have "m div 12 = 0" "m mod 12 = m" using assms by simp_all
  moreover have "0 \<le> month_start (DaysInYear yr - 365) m \<and>
      month_start (DaysInYear yr - 365) m \<le> 335"
    using assms(3,4) DaysInYear_bounds [of yr] by (simp add: month_start_def)
  ultimately show ?thesis
    by (simp add: MakeDay_def Let_def)
qed

lemma resolve_monthly:
  assumes "clock_time today" "\<bar>off\<bar> \<le> msPerDay"
  shows "\<exists>p. resolvePeriod (fixed_offset off) today monthly s e = Inr p \<and>
       days_of_date (previousEndDate p) + 1 = days_of_date (currentStartDate p)"
proof -
  let ?tz = "fixed_offset off"
  define y where "y = getFullYear ?tz today"
  define m where "m = getMonth ?tz today"
  define yr where "yr = (if 0 \<le> y \<and> y \<le> 99 then 1900 + y else y)"
  define n where "n = MakeDay yr m 1"
  have m: "0 \<le> m" "m \<le> 11"
    using MonthFromTime_range [of "today + off"] by (simp_all add: m_def getMonth_def LocalTime_fixed)
  have ms: "msPerDay = 86400000" by (simp add: msPerDay_def)
  have t: "\<bar>today\<bar> \<le> 8640000000000000 - 62 * msPerDay"
    using assms(1) by (simp add: clock_time_def)
  have b: "\<bar>n * msPerDay - off\<bar> \<le> 8640000000000000 - 31 * msPerDay"
  proof (cases "0 \<le> y \<and> y \<le> 99")
    case True
    then have "- 26000 \<le> n \<and> n \<le> 11000"
      using MakeDay_1900s [of yr m] m by (simp add: n_def yr_def)
    with assms(2) show ?thesis unfolding ms by linarith
  next
    case False
    then have "yr = y" by (simp add: yr_def)
    then have "n = MakeDay (YearFromTime (today + off)) (MonthFromTime (today + off)) 1"
      by (simp add: n_def y_def m_def getFullYear_def getMonth_def LocalTime_fixed)
    with first_of_month_bound [of today off] t show ?thesis unfolding ms by linarith
  qed
  define a where "a = MakeDay yr (m + 1) 1 - n"
  have a: "MakeDay yr (m + 1) 1 = n + a" "28 \<le> a" "a \<le> 31"
    using MakeDay_month_step [of m yr] m by (simp_all add: n_def a_def)
  define c where "c = n - MakeDay yr (m - 1) 1"
  have c: "MakeDay yr (m - 1) 1 = n - c" "28 \<le> c" "c \<le> 31"
    using MakeDay_month_step [of "m - 1" yr] m by (simp_all add: n_def c_def)
  have d1: "Date_ymd ?tz y m 1 = Some (n * msPerDay - off)"
    using b by (simp add: Date_ymd_fixed yr_def [symmetric] n_def [symmetric] TimeClip_Some ms)
  have d2: "Date_ymd ?tz y (m + 1) 0 = Some ((n + a - 1) * msPerDay - off)"
    using b a by (simp add: Date_ymd_fixed yr_def [symmetric] MakeDay_zero TimeClip_Some ms)
  have d3: "Date_ymd ?tz y (m - 1) 1 = Some ((n - c) * msPerDay - off)"
    using b c by (simp add: Date_ymd_fixed yr_def [symmetric] TimeClip_Some ms)
  have d4: "Date_ymd ?tz y m 0 = Some ((n - 1) * msPerDay - off)"
    using b by (simp add: Date_ymd_fixed yr_def [symmetric] MakeDay_zero n_def [symmetric]
        TimeClip_Some ms)
  have "(n - 1) * msPerDay - off = (n * msPerDay - off) + (- 1) * msPerDay"
    by (simp add: algebra_simps)
  then have "Day ((n - 1) * msPerDay - off) = Day (n * msPerDay - off) - 1"
    by (simp only: Day_add_days)
  then show ?thesis
    by (simp add: resolvePeriod_def y_def [symmetric] m_def [symmetric] d1 d2 d3 d4
        days_of_date_toISODate)
qed


lemma resolve_weekly:
  assumes "clock_time today"
  shows "\<exists>p. resolvePeriod (fixed_offset off) today weekly s e = Inr p \<and>
       days_of_date (previousEndDate p) + 1 = days_of_date (currentStartDate p) \<and>
       interval_length (currentStartDate p) (currentEndDate p) = 7 \<and>
       interval_length (previousStartDate p) (previousEndDate p) = 7"
proof -
  let ?tz = "fixed_offset off"
  define g where "g = getDay ?tz today"
  define ws where "ws = today + (- g) * msPerDay"
  define we where "we = ws + 6 * msPerDay"
  define ps where "ps = ws + (- 7) * msPerDay"
  define pe where "pe = we + (- 7) * msPerDay"
  have g: "0 \<le> g" "g \<le> 6" using WeekDay_range [of "today + off"]
    by (simp_all add: g_def getDay_def LocalTime_fixed)
  have ms: "msPerDay = 86400000" by (simp add: msPerDay_def)
  have t: "\<bar>today\<bar> \<le> 8640000000000000 - 62 * msPerDay"
    using assms(1) by (simp add: clock_time_def)
  have r: "\<bar>ws\<bar> \<le> 8640000000000000" "\<bar>we\<bar> \<le> 8640000000000000"
      "\<bar>ps\<bar> \<le> 8640000000000000" "\<bar>pe\<bar> \<le> 8640000000000000"
    using t g unfolding ws_def we_def ps_def pe_def ms by linarith+
  have 1: "setDate ?tz today (getDate ?tz today - g) = Some ws"
    by (rule setDate_minus_Some [OF _ r(1)]) (simp add: ws_def)
  have 2: "setDate ?tz ws (getDate ?tz ws + 6) = Some we"
    by (rule setDate_plus_Some [OF _ r(2)]) (simp add: we_def)
  have 3: "setDate ?tz ws (getDate ?tz ws - 7) = Some ps"
    by (rule setDate_minus_Some [OF _ r(3)]) (simp add: ps_def)
  have 4: "setDate ?tz we (getDate ?tz we - 7) = Some pe"
    by (rule setDate_minus_Some [OF _ r(4)]) (simp add: pe_def)
  have "Day we = Day ws + 6" "Day ps = Day ws + (- 7)" "Day pe = Day ws + 6 + (- 7)"
    unfolding we_def ps_def pe_def by (simp_all only: Day_add_days)
  then have d: "Day we = Day ws + 6" "Day ps = Day ws - 7" "Day pe = Day ws - 1"
    by simp_all
  show ?thesis
    by (simp add: resolvePeriod_def g_def [symmetric] 1 2 3 4 days_of_date_toISODate
        interval_length_def d)
qed

lemma resolve_yearly:
  "\<exists>p. resolvePeriod tz today yearly s e = Inr p \<and>
       days_of_date (previousEndDate p) + 1 = days_of_date (currentStartDate p)"
  using DayFromYear_pred [of "getFullYear tz today"]
  by (simp add: resolvePeriod_def days_of_date_def MakeDay_def month_start_def Let_def)

lemma days_of_date_bound:
  assumes "valid_date d" "four_digit_year d"
  shows "- 719528 \<le> days_of_date d \<and> days_of_date d \<le> 2932900"
proof -
  have m: "1 \<le> month d" "month d \<le> 12" and dd: "1 \<le> day d" "day d \<le> 31"
    using assms(1)
    by (simp_all add: valid_date_def days_in_month_def DaysInYear_def split: if_splits)
  have mm: "(month d - 1) div 12 = 0" "(month d - 1) mod 12 = month d - 1"
    using m by simp_all
  have "DayFromYear 0 \<le> DayFromYear (year d)" "DayFromYear (year d) \<le> DayFromYear 9999"
    using assms(2) by (simp_all add: four_digit_year_def DayFromYear_mono)
  moreover have "DayFromYear 0 = - 719528" "DayFromYear 9999 = 2932532"
    by (simp_all add: DayFromYear_def)
  moreover have "0 \<le> month_start (DaysInYear (year d) - 365) (month d - 1) \<and>
      month_start (DaysInYear (year d) - 365) (month d - 1) \<le> 335"
    using m DaysInYear_bounds [of "year d"] by (simp add: month_start_def)
  ultimately show ?thesis
    using dd by (simp add: days_of_date_def MakeDay_def Let_def mm)
qed

lemma Date_parse_valid:
  assumes "valid_date d" "four_digit_year d"
  shows "Date_parse d = Some (MakeDate (days_of_date d) 0)"
proof -
  have "1 \<le> month d \<and> month d \<le> 12 \<and> 1 \<le> day d \<and> day d \<le> 31"
    using assms(1)
    by (simp add: valid_date_def days_in_month_def DaysInYear_def split: if_splits)
  moreover have "\<bar>MakeDate (days_of_date d) 0\<bar> \<le> 8640000000000000"
    using days_of_date_bound [OF assms] unfolding MakeDate_def msPerDay_def by linarith
  ultimately show ?thesis by (simp add: Date_parse_def TimeClip_Some)
qed

lemma resolve_custom_today:
  "resolvePeriod tz today custom (Some s) (Some e) =
   resolvePeriod tz today' custom (Some s) (Some e)"
  by (simp add: resolvePeriod_def)

lemma resolve_custom_value:
  assumes "valid_date s" "valid_date e" "four_digit_year s" "four_digit_year e"
  shows "resolvePeriod (fixed_offset off) today custom (Some s) (Some e) =
     Inr \<lparr>currentStartDate = s, currentEndDate = e,
          previousStartDate =
            toISODate (MakeDate (days_of_date s - 1 - (days_of_date e - days_of_date s)) 0),
          previousEndDate = toISODate (MakeDate (days_of_date s - 1) 0)\<rparr>"
proof -
  let ?tz = "fixed_offset off"
  define ds where "ds = days_of_date s"
  define de where "de = days_of_date e"
  have b: "- 719528 \<le> ds" "ds \<le> 2932900" "- 719528 \<le> de" "de \<le> 2932900"
    using days_of_date_bound [OF assms(1,3)] days_of_date_bound [OF assms(2,4)]
    by (simp_all add: ds_def de_def)
  have ms: "msPerDay = 86400000" by (simp add: msPerDay_def)
  have "MakeDate de 0 - MakeDate ds 0 = (de - ds) * msPerDay"
    by (simp add: MakeDate_def algebra_simps)
  then have diff: "(MakeDate de 0 - MakeDate ds 0) div msPerDay = de - ds"
    by (simp add: msPerDay_def)
  have r: "\<bar>MakeDate (ds - 1) 0\<bar> \<le> 8640000000000000"
      "\<bar>MakeDate (ds - 1 - (de - ds)) 0\<bar> \<le> 8640000000000000"
    using b unfolding MakeDate_def ms by (simp_all add: abs_le_iff)
  have 1: "setDate ?tz (MakeDate ds 0) (getDate ?tz (MakeDate ds 0) - 1) = Some (MakeDate (ds - 1) 0)"
    by (rule setDate_minus_Some [OF _ r(1)]) (simp add: MakeDate_def algebra_simps)
  have 2: "setDate ?tz (MakeDate (ds - 1) 0) (getDate ?tz (MakeDate (ds - 1) 0) - (de - ds)) =
      Some (MakeDate (ds - 1 - (de - ds)) 0)"
    by (rule setDate_minus_Some [OF _ r(2)]) (simp add: MakeDate_def algebra_simps)
  show ?thesis
    using assms
    by (simp add: resolvePeriod_def Date_parse_valid Let_def ds_def [symmetric]
        de_def [symmetric] diff 1 2)
qed

lemma resolve_custom_shape:
  assumes "valid_date s" "valid_date e" "four_digit_year s" "four_digit_year e"
    and "plain_zone tz"
  shows "\<exists>a b. resolvePeriod tz today custom (Some s) (Some e) =
     Inr \<lparr>currentStartDate = s, currentEndDate = e,
          previousStartDate = toISODate a, previousEndDate = toISODate b\<rparr>"
proof -
  define ds where "ds = days_of_date s"
  define de where "de = days_of_date e"
  have b: "- 719528 \<le> ds" "ds \<le> 2932900" "- 719528 \<le> de" "de \<le> 2932900"
    using days_of_date_bound [OF assms(1,3)] days_of_date_bound [OF assms(2,4)]
    by (simp_all add: ds_def de_def)
  have ms: "msPerDay = 86400000" by (simp add: msPerDay_def)
  have "MakeDate de 0 - MakeDate ds 0 = (de - ds) * msPerDay"
    by (simp add: MakeDate_def algebra_simps)
  then have diff: "(MakeDate de 0 - MakeDate ds 0) div msPerDay = de - ds"
    by (simp add: msPerDay_def)
  from setDate_zone_minus [OF assms(5), of "MakeDate ds 0" 1]
  obtain u where u: "setDate tz (MakeDate ds 0) (getDate tz (MakeDate ds 0) - 1) = TimeClip u"
      "\<bar>u - (MakeDate ds 0 - 1 * msPerDay)\<bar> \<le> 2 * msPerDay"
    by blast
  have ur: "\<bar>u\<bar> \<le> 8640000000000000"
    using u(2) b unfolding MakeDate_def ms by linarith
  from setDate_zone_minus [OF assms(5), of u "de - ds"]
  obtain v where v: "setDate tz u (getDate tz u - (de - ds)) = TimeClip v"
      "\<bar>v - (u - (de - ds) * msPerDay)\<bar> \<le> 2 * msPerDay"
    by blast
  have vr: "\<bar>v\<bar> \<le> 8640000000000000"
    using v(2) u(2) b unfolding MakeDate_def ms by (simp add: abs_le_iff algebra_simps)
  show ?thesis
    using assms(1-4)
    by (simp add: resolvePeriod_def Date_parse_valid Let_def ds_def [symmetric]
        de_def [symmetric] diff u(1) v(1) TimeClip_Some ur vr) blast
qed

lemma resolve_valid_dates:
  assumes "analysisType \<noteq> custom"
    and "resolvePeriod tz today analysisType startDate endDate = Inr p"
  shows "valid_date (currentStartDate p) \<and> valid_date (currentEndDate p) \<and>
     valid_date (previousStartDate p) \<and> valid_date (previousEndDate p)"
proof (cases analysisType)
  case monthly
  with assms(2) have "\<exists>a b c d. p = \<lparr>currentStartDate = toISODate a, currentEndDate = toISODate b,
      previousStartDate = toISODate c, previousEndDate = toISODate d\<rparr>"
    by (auto simp: resolvePeriod_def split: option.splits)
  then show ?thesis by (auto simp: valid_toISODate)
next
  case weekly
  with assms(2) have "\<exists>a b c d. p = \<lparr>currentStartDate = toISODate a, currentEndDate = toISODate b,
      previousStartDate = toISODate c, previousEndDate = toISODate d\<rparr>"
    by (auto simp: resolvePeriod_def split: option.splits)
  then show ?thesis by (auto simp: valid_toISODate)
next
  case yearly
  with assms(2) have "p =
     \<lparr>currentStartDate = \<lparr>year = getFullYear tz today, month = 1, day = 1\<rparr>,
      currentEndDate = \<lparr>year = getFullYear tz today, month = 12, day = 31\<rparr>,
      previousStartDate = \<lparr>year = getFullYear tz today - 1, month = 1, day = 1\<rparr>,
      previousEndDate = \<lparr>year = getFullYear tz today - 1, month = 12, day = 31\<rparr>\<rparr>"
    by (simp add: resolvePeriod_def)
  then show ?thesis by (simp add: valid_date_def days_in_month_def)
next
  case custom
  with assms(1) show ?thesis by simp
qed

subsection \<open>Claims about the period resolver\<close>

text \<open>
  Claim C3, as the code has it. In a time zone whose offset from UTC never changes (and
  is at most a day), for every "today" that is a clock time and every analysis kind
  other than custom, the resolver returns two intervals, bounded by calendar dates,
  such that the previous interval ends exactly one day before the current one starts,
  so that no date lies in both; for the weekly kind both intervals are 7 days long.
  For the yearly kind the same holds in every time zone and for every "today". (The
  lengths of the monthly and of the yearly intervals differ: see the counterexample.)
\<close>

theorem resolver_previous_adjacent:
  "(analysisType \<noteq> custom \<and> clock_time today \<and> \<bar>off\<bar> \<le> msPerDay \<longrightarrow>
     (\<exists>p. resolvePeriod (fixed_offset off) today analysisType startDate endDate = Inr p \<and>
        valid_date (currentStartDate p) \<and> valid_date (currentEndDate p) \<and>
        valid_date (previousStartDate p) \<and> valid_date (previousEndDate p) \<and>
        days_of_date (previousEndDate p) + 1 = days_of_date (currentStartDate p) \<and>
        disjoint_periods p \<and>
        (analysisType = weekly \<longrightarrow>
           interval_length (currentStartDate p) (currentEndDate p) = 7 \<and>
           interval_length (previousStartDate p) (previousEndDate p) = 7)))
   \<and> (\<exists>p. resolvePeriod tz today yearly startDate endDate = Inr p \<and>
        valid_date (currentStartDate p) \<and> valid_date (currentEndDate p) \<and>
        valid_date (previousStartDate p) \<and> valid_date (previousEndDate p) \<and>
        days_of_date (previousEndDate p) + 1 = days_of_date (currentStartDate p) \<and>
        disjoint_periods p)"
proof (intro conjI impI)
  assume h: "analysisType \<noteq> custom \<and> clock_time today \<and> \<bar>off\<bar> \<le> msPerDay"
  then have nc: "analysisType \<noteq> custom" and ct: "clock_time today"
    and ob: "\<bar>off\<bar> \<le> msPerDay"
    by simp_all
  have "\<exists>p. resolvePeriod (fixed_offset off) today analysisType startDate endDate = Inr p \<and>
       days_of_date (previousEndDate p) + 1 = days_of_date (currentStartDate p) \<and>
       (analysisType = weekly \<longrightarrow>
          interval_length (currentStartDate p) (currentEndDate p) = 7 \<and>
          interval_length (previousStartDate p) (previousEndDate p) = 7)"
  proof (cases analysisType)
    case monthly
    with resolve_monthly [OF ct ob, of startDate endDate] show ?thesis by simp
  next
    case weekly
    with resolve_weekly [OF ct, of off startDate endDate] show ?thesis by simp
  next
    case yearly
    with resolve_yearly [of "fixed_offset off" today startDate endDate] show ?thesis by simp
  next
    case custom
    with nc show ?thesis by simp
  qed
  then obtain p where r: "resolvePeriod (fixed_offset off) today analysisType startDate endDate = Inr p"
    and a: "days_of_date (previousEndDate p) + 1 = days_of_date (currentStartDate p)"
    and w: "analysisType = weekly \<longrightarrow>
          interval_length (currentStartDate p) (currentEndDate p) = 7 \<and>
          interval_length (previousStartDate p) (previousEndDate p) = 7"
    by blast
  from resolve_valid_dates [OF nc r]
  have v: "valid_date (currentStartDate p)" "valid_date (currentEndDate p)"
      "valid_date (previousStartDate p)" "valid_date (previousEndDate p)"
    by simp_all
  from a have d: "disjoint_periods p" by (rule adjacent_disjoint)
  show "\<exists>p. resolvePeriod (fixed_offset off) today analysisType startDate endDate = Inr p \<and>
        valid_date (currentStartDate p) \<and> valid_date (currentEndDate p) \<and>
        valid_date (previousStartDate p) \<and> valid_date (previousEndDate p) \<and>
        days_of_date (previousEndDate p) + 1 = days_of_date (currentStartDate p) \<and>
        disjoint_periods p \<and>
        (analysisType = weekly \<longrightarrow>
           interval_length (currentStartDate p) (currentEndDate p) = 7 \<and>
           interval_length (previousStartDate p) (previousEndDate p) = 7)"
    by (intro exI [of _ p] conjI) (fact r v a d w)+
next
  from resolve_yearly [of tz today startDate endDate]
  obtain p where r: "resolvePeriod tz today yearly startDate endDate = Inr p"
    and a: "days_of_date (previousEndDate p) + 1 = days_of_date (currentStartDate p)"
    by blast
  have "yearly \<noteq> custom" by simp
  from resolve_valid_dates [OF this r]
  have v: "valid_date (currentStartDate p)" "valid_date (currentEndDate p)"
      "valid_date (previousStartDate p)" "valid_date (previousEndDate p)"
    by simp_all
  from a have d: "disjoint_periods p" by (rule adjacent_disjoint)
  show "\<exists>p. resolvePeriod tz today yearly startDate endDate = Inr p \<and>
        valid_date (currentStartDate p) \<and> valid_date (currentEndDate p) \<and>
        valid_date (previousStartDate p) \<and> valid_date (previousEndDate p) \<and>
        days_of_date (previousEndDate p) + 1 = days_of_date (currentStartDate p) \<and>
        disjoint_periods p"
    by (intro exI [of _ p] conjI) (fact r v a d)+
qed

theorem resolver_previous_adjacent_witness:
  "weekly \<noteq> custom \<and> clock_time 1710496800000 \<and> \<bar>19800000\<bar> \<le> msPerDay \<and>
   (\<exists>p. resolvePeriod (fixed_offset 19800000) 1710496800000 weekly None None = Inr p \<and>
        valid_date (previousEndDate p) \<and> valid_date (currentStartDate p) \<and>
        days_of_date (previousEndDate p) + 1 = days_of_date (currentStartDate p) \<and>
        disjoint_periods p \<and>
        interval_length (currentStartDate p) (currentEndDate p) = 7 \<and>
        interval_length (previousStartDate p) (previousEndDate p) = 7)"
proof -
  have h: "weekly \<noteq> custom \<and> clock_time 1710496800000 \<and> \<bar>19800000\<bar> \<le> msPerDay"
    by (simp add: clock_time_def msPerDay_def)
  with resolver_previous_adjacent [of weekly 1710496800000 19800000 None None]
  show ?thesis by auto
qed

text \<open>
  Claim C3 as stated fails: on 2024-03-15 (UTC) the monthly analysis compares March,
  31 days, with February, 29 days, and the yearly analysis compares 2024, 366 days,
  with 2023, 365 days.
\<close>

theorem resolver_equal_length_counterexample:
  "toISODate 1710496800000 = \<lparr>year = 2024, month = 3, day = 15\<rparr> \<and>
   resolvePeriod (fixed_offset 0) 1710496800000 monthly None None =
     Inr \<lparr>currentStartDate = \<lparr>year = 2024, month = 3, day = 1\<rparr>,
          currentEndDate = \<lparr>year = 2024, month = 3, day = 31\<rparr>,
          previousStartDate = \<lparr>year = 2024, month = 2, day = 1\<rparr>,
          previousEndDate = \<lparr>year = 2024, month = 2, day = 29\<rparr>\<rparr> \<and>
   interval_length \<lparr>year = 2024, month = 3, day = 1\<rparr> \<lparr>year = 2024, month = 3, day = 31\<rparr> = 31 \<and>
   interval_length \<lparr>year = 2024, month = 2, day = 1\<rparr> \<lparr>year = 2024, month = 2, day = 29\<rparr> = 29 \<and>
   resolvePeriod (fixed_offset 0) 1710496800000 yearly None None =
     Inr \<lparr>currentStartDate = \<lparr>year = 2024, month = 1, day = 1\<rparr>,
          currentEndDate = \<lparr>year = 2024, month = 12, day = 31\<rparr>,
          previousStartDate = \<lparr>year = 2023, month = 1, day = 1\<rparr>,
          previousEndDate = \<lparr>year = 2023, month = 12, day = 31\<rparr>\<rparr> \<and>
   interval_length \<lparr>year = 2024, month = 1, day = 1\<rparr> \<lparr>year = 2024, month = 12, day = 31\<rparr> = 366 \<and>
   interval_length \<lparr>year = 2023, month = 1, day = 1\<rparr> \<lparr>year = 2023, month = 12, day = 31\<rparr> = 365"
  by code_simp

text \<open>
  Where the offset changes, the local midnights and the local times of day that the
  resolver computes fall on different UTC dates before and after the change. In London
  on 2024-04-15 12:00 UTC the monthly analysis gives 2024-03-31 to 2024-04-29 as the
  current interval and 2024-03-01 to 2024-03-31 as the previous one, which share a
  day; on 2024-04-02 23:30 UTC the weekly analysis gives a current interval of 6 days.
\<close>

lemma resolver_daylight_saving:
  "resolvePeriod Europe_London_2024 1713182400000 monthly None None =
     Inr \<lparr>currentStartDate = \<lparr>year = 2024, month = 3, day = 31\<rparr>,
          currentEndDate = \<lparr>year = 2024, month = 4, day = 29\<rparr>,
          previousStartDate = \<lparr>year = 2024, month = 3, day = 1\<rparr>,
          previousEndDate = \<lparr>year = 2024, month = 3, day = 31\<rparr>\<rparr>"
  "resolvePeriod Europe_London_2024 1712100600000 weekly None None =
     Inr \<lparr>currentStartDate = \<lparr>year = 2024, month = 3, day = 31\<rparr>,
          currentEndDate = \<lparr>year = 2024, month = 4, day = 5\<rparr>,
          previousStartDate = \<lparr>year = 2024, month = 3, day = 24\<rparr>,
          previousEndDate = \<lparr>year = 2024, month = 3, day = 30\<rparr>\<rparr>"
  "interval_length \<lparr>year = 2024, month = 3, day = 31\<rparr> \<lparr>year = 2024, month = 4, day = 5\<rparr> = 6"
  by code_simp+

text \<open>
  Claim C4. In a time zone whose offset from UTC never changes, for a custom analysis
  with bounds \<open>s \<le> e\<close> that are calendar dates with a year of four digits, the
  resolver keeps the bounds as the current interval; the previous interval is bounded by calendar dates, ends one day
  before \<open>s\<close>, starts (e - s in days) before its own end, and so has the length of the
  current one. There, in every year, January 10 to January 20 (11 days) gives December
  30 of the year before to January 9 (11 days).

  The claim fails on the code where the offset changes. In New York, for 2024-11-04
  to 2024-11-06 the previous interval is 2024-10-31 to 2024-11-02 and not 2024-11-01
  to 2024-11-03: the start is midnight UTC, which is 19:00 of 3 November in New York;
  \<^verbatim>\<open>setDate\<close> moves it to 19:00 of 2 November, which is before the change of 3
  November and so 23:00 UTC of 2 November.
\<close>

theorem custom_previous_window:
  "(valid_date s \<and> valid_date e \<and> four_digit_year s \<and> four_digit_year e \<and>
    days_of_date s \<le> days_of_date e \<longrightarrow>
     (\<exists>p. resolvePeriod (fixed_offset off) today custom (Some s) (Some e) = Inr p \<and>
        currentStartDate p = s \<and> currentEndDate p = e \<and>
        valid_date (previousStartDate p) \<and> valid_date (previousEndDate p) \<and>
        days_of_date (previousEndDate p) = days_of_date s - 1 \<and>
        days_of_date (previousStartDate p) =
          days_of_date (previousEndDate p) - (days_of_date e - days_of_date s) \<and>
        interval_length (previousStartDate p) (previousEndDate p) = interval_length s e))
   \<and> (1 \<le> y \<and> y \<le> 9999 \<longrightarrow>
        resolvePeriod (fixed_offset off) today custom
          (Some \<lparr>year = y, month = 1, day = 10\<rparr>) (Some \<lparr>year = y, month = 1, day = 20\<rparr>) =
        Inr \<lparr>currentStartDate = \<lparr>year = y, month = 1, day = 10\<rparr>,
             currentEndDate = \<lparr>year = y, month = 1, day = 20\<rparr>,
             previousStartDate = \<lparr>year = y - 1, month = 12, day = 30\<rparr>,
             previousEndDate = \<lparr>year = y, month = 1, day = 9\<rparr>\<rparr>)
   \<and> interval_length \<lparr>year = y, month = 1, day = 10\<rparr> \<lparr>year = y, month = 1, day = 20\<rparr> = 11
   \<and> interval_length \<lparr>year = y - 1, month = 12, day = 30\<rparr> \<lparr>year = y, month = 1, day = 9\<rparr> = 11
   \<and> resolvePeriod America_New_York_2024 today custom
         (Some \<lparr>year = 2024, month = 11, day = 4\<rparr>) (Some \<lparr>year = 2024, month = 11, day = 6\<rparr>) =
       Inr \<lparr>currentStartDate = \<lparr>year = 2024, month = 11, day = 4\<rparr>,
            currentEndDate = \<lparr>year = 2024, month = 11, day = 6\<rparr>,
            previousStartDate = \<lparr>year = 2024, month = 10, day = 31\<rparr>,
            previousEndDate = \<lparr>year = 2024, month = 11, day = 2\<rparr>\<rparr>
   \<and> days_of_date \<lparr>year = 2024, month = 11, day = 2\<rparr> =
       days_of_date \<lparr>year = 2024, month = 11, day = 4\<rparr> - 2"
proof (intro conjI impI)
  assume a: "valid_date s \<and> valid_date e \<and> four_digit_year s \<and> four_digit_year e \<and>
    days_of_date s \<le> days_of_date e"
  then show "\<exists>p. resolvePeriod (fixed_offset off) today custom (Some s) (Some e) = Inr p \<and>
        currentStartDate p = s \<and> currentEndDate p = e \<and>
        valid_date (previousStartDate p) \<and> valid_date (previousEndDate p) \<and>
        days_of_date (previousEndDate p) = days_of_date s - 1 \<and>
        days_of_date (previousStartDate p) =
          days_of_date (previousEndDate p) - (days_of_date e - days_of_date s) \<and>
        interval_length (previousStartDate p) (previousEndDate p) = interval_length s e"
    by (simp add: resolve_custom_value days_of_date_toISODate Day_of_midnight
        interval_length_def valid_toISODate)
next
  let ?s = "\<lparr>year = y, month = 1, day = 10\<rparr>" and ?e = "\<lparr>year = y, month = 1, day = 20\<rparr>"
  let ?ps = "\<lparr>year = y - 1, month = 12, day = 30\<rparr>" and ?pe = "\<lparr>year = y, month = 1, day = 9\<rparr>"
  have v: "valid_date ?s" "valid_date ?e" "valid_date ?ps" "valid_date ?pe"
    by (simp_all add: valid_date_def days_in_month_def)
  have d: "days_of_date ?s = DayFromYear y + 9" "days_of_date ?e = DayFromYear y + 19"
      "days_of_date ?pe = DayFromYear y + 8"
    by (simp_all add: days_of_date_def MakeDay_def month_start_def)
  have dps: "days_of_date ?ps = DayFromYear y - 2"
    using DayFromYear_pred [of y]
    by (simp add: days_of_date_def MakeDay_def month_start_def Let_def)
  have a1: "days_of_date ?s - 1 = days_of_date ?pe"
    by (simp add: d)
  have a2: "days_of_date ?s - 1 - (days_of_date ?e - days_of_date ?s) = days_of_date ?ps"
    by (simp add: d dps)
  show "interval_length ?s ?e = 11" by (simp add: interval_length_def d)
  show "interval_length ?ps ?pe = 11" by (simp add: interval_length_def d dps)
  assume "1 \<le> y \<and> y \<le> 9999"
  then have f: "four_digit_year ?s" "four_digit_year ?e"
    by (simp_all add: four_digit_year_def)
  show "resolvePeriod (fixed_offset off) today custom (Some ?s) (Some ?e) =
       Inr \<lparr>currentStartDate = ?s, currentEndDate = ?e,
            previousStartDate = ?ps, previousEndDate = ?pe\<rparr>"
    by (simp only: resolve_custom_value [OF v(1,2) f] a2 toISODate_days_of_date [OF v(3)])
      (simp only: a1 toISODate_days_of_date [OF v(4)])
next
  have "resolvePeriod America_New_York_2024 0 custom
         (Some \<lparr>year = 2024, month = 11, day = 4\<rparr>) (Some \<lparr>year = 2024, month = 11, day = 6\<rparr>) =
       Inr \<lparr>currentStartDate = \<lparr>year = 2024, month = 11, day = 4\<rparr>,
            currentEndDate = \<lparr>year = 2024, month = 11, day = 6\<rparr>,
            previousStartDate = \<lparr>year = 2024, month = 10, day = 31\<rparr>,
            previousEndDate = \<lparr>year = 2024, month = 11, day = 2\<rparr>\<rparr>"
    by code_simp
  then show "resolvePeriod America_New_York_2024 today custom
         (Some \<lparr>year = 2024, month = 11, day = 4\<rparr>) (Some \<lparr>year = 2024, month = 11, day = 6\<rparr>) =
       Inr \<lparr>currentStartDate = \<lparr>year = 2024, month = 11, day = 4\<rparr>,
            currentEndDate = \<lparr>year = 2024, month = 11, day = 6\<rparr>,
            previousStartDate = \<lparr>year = 2024, month = 10, day = 31\<rparr>,
            previousEndDate = \<lparr>year = 2024, month = 11, day = 2\<rparr>\<rparr>"
    by (simp only: resolve_custom_today [of America_New_York_2024 today _ _ 0])
  show "days_of_date \<lparr>year = 2024, month = 11, day = 2\<rparr> =
       days_of_date \<lparr>year = 2024, month = 11, day = 4\<rparr> - 2"
    by code_simp
qed

theorem custom_previous_window_witness:
  "valid_date \<lparr>year = 2024, month = 2, day = 20\<rparr> \<and>
   valid_date \<lparr>year = 2024, month = 3, day = 5\<rparr> \<and>
   four_digit_year \<lparr>year = 2024, month = 2, day = 20\<rparr> \<and>
   four_digit_year \<lparr>year = 2024, month = 3, day = 5\<rparr> \<and>
   days_of_date \<lparr>year = 2024, month = 2, day = 20\<rparr> \<le> days_of_date \<lparr>year = 2024, month = 3, day = 5\<rparr> \<and>
   (\<exists>p. resolvePeriod (fixed_offset 19800000) 1710496800000 custom
          (Some \<lparr>year = 2024, month = 2, day = 20\<rparr>) (Some \<lparr>year = 2024, month = 3, day = 5\<rparr>) = Inr p \<and>
        valid_date (previousStartDate p) \<and> valid_date (previousEndDate p) \<and>
        days_of_date (previousEndDate p) = days_of_date \<lparr>year = 2024, month = 2, day = 20\<rparr> - 1 \<and>
        interval_length (previousStartDate p) (previousEndDate p) = 15) \<and>
   (1::int) \<le> 2024 \<and> (2024::int) \<le> 9999 \<and>
   resolvePeriod (fixed_offset 19800000) 1710496800000 custom
       (Some \<lparr>year = 2024, month = 1, day = 10\<rparr>) (Some \<lparr>year = 2024, month = 1, day = 20\<rparr>) =
     Inr \<lparr>currentStartDate = \<lparr>year = 2024, month = 1, day = 10\<rparr>,
          currentEndDate = \<lparr>year = 2024, month = 1, day = 20\<rparr>,
          previousStartDate = \<lparr>year = 2023, month = 12, day = 30\<rparr>,
          previousEndDate = \<lparr>year = 2024, month = 1, day = 9\<rparr>\<rparr>"
proof -
  have h: "valid_date \<lparr>year = 2024, month = 2, day = 20\<rparr> \<and>
      valid_date \<lparr>year = 2024, month = 3, day = 5\<rparr> \<and>
      four_digit_year \<lparr>year = 2024, month = 2, day = 20\<rparr> \<and>
      four_digit_year \<lparr>year = 2024, month = 3, day = 5\<rparr> \<and>
      days_of_date \<lparr>year = 2024, month = 2, day = 20\<rparr> \<le> days_of_date \<lparr>year = 2024, month = 3, day = 5\<rparr>"
    by code_simp
  have l: "interval_length \<lparr>year = 2024, month = 2, day = 20\<rparr> \<lparr>year = 2024, month = 3, day = 5\<rparr> = 15"
    by code_simp
  from h l custom_previous_window [of "\<lparr>year = 2024, month = 2, day = 20\<rparr>"
      "\<lparr>year = 2024, month = 3, day = 5\<rparr>" 19800000 1710496800000 2024]
  show ?thesis by auto
qed

text \<open>
  Claim C8 as stated fails: a custom request from 2024-01-20 to 2024-01-10 is not
  rejected. The resolver returns the bounds as they are and a "previous" interval
  that runs from 2024-01-29 back to 2024-01-19.
\<close>

theorem reversed_range_counterexample:
  "valid_date \<lparr>year = 2024, month = 1, day = 20\<rparr> \<and>
   valid_date \<lparr>year = 2024, month = 1, day = 10\<rparr> \<and>
   days_of_date \<lparr>year = 2024, month = 1, day = 20\<rparr> > days_of_date \<lparr>year = 2024, month = 1, day = 10\<rparr> \<and>
   resolvePeriod (fixed_offset 0) 1710496800000 custom
       (Some \<lparr>year = 2024, month = 1, day = 20\<rparr>) (Some \<lparr>year = 2024, month = 1, day = 10\<rparr>) =
     Inr \<lparr>currentStartDate = \<lparr>year = 2024, month = 1, day = 20\<rparr>,
          currentEndDate = \<lparr>year = 2024, month = 1, day = 10\<rparr>,
          previousStartDate = \<lparr>year = 2024, month = 1, day = 29\<rparr>,
          previousEndDate = \<lparr>year = 2024, month = 1, day = 19\<rparr>\<rparr>"
  by code_simp

text \<open>
  Claim C8, as the code has it. A custom request whose start date is strictly after its
  end date (both calendar dates with a year of four digits) is not rejected, in any
  time zone whose offsets are at most a day: the resolver returns the two bounds
  unchanged as the current interval, and a previous interval bounded by calendar
  dates. In a time zone whose offset from UTC never changes, the
  previous end is the day before the start and the previous start is (start - end in
  days) after the previous end, so that the previous interval is reversed as well.
\<close>

theorem reversed_range_not_rejected:
  assumes "valid_date s" "valid_date e" "four_digit_year s" "four_digit_year e"
    and "days_of_date e < days_of_date s"
  shows "(plain_zone tz \<longrightarrow>
      (\<exists>p. resolvePeriod tz today custom (Some s) (Some e) = Inr p \<and>
         currentStartDate p = s \<and> currentEndDate p = e \<and>
         valid_date (previousStartDate p) \<and> valid_date (previousEndDate p)))
   \<and> (\<exists>p. resolvePeriod (fixed_offset off) today custom (Some s) (Some e) = Inr p \<and>
       currentStartDate p = s \<and> currentEndDate p = e \<and>
       valid_date (previousStartDate p) \<and> valid_date (previousEndDate p) \<and>
       days_of_date (previousEndDate p) = days_of_date s - 1 \<and>
       days_of_date (previousStartDate p) =
         days_of_date (previousEndDate p) + (days_of_date s - days_of_date e) \<and>
       days_of_date (previousEndDate p) < days_of_date (previousStartDate p))"
proof (intro conjI impI)
  assume "plain_zone tz"
  from resolve_custom_shape [OF assms(1-4) this, of today]
  obtain a b where "resolvePeriod tz today custom (Some s) (Some e) =
      Inr \<lparr>currentStartDate = s, currentEndDate = e,
           previousStartDate = toISODate a, previousEndDate = toISODate b\<rparr>"
    by blast
  then show "\<exists>p. resolvePeriod tz today custom (Some s) (Some e) = Inr p \<and>
         currentStartDate p = s \<and> currentEndDate p = e \<and>
         valid_date (previousStartDate p) \<and> valid_date (previousEndDate p)"
    by (simp add: valid_toISODate)
next
  show "\<exists>p. resolvePeriod (fixed_offset off) today custom (Some s) (Some e) = Inr p \<and>
       currentStartDate p = s \<and> currentEndDate p = e \<and>
       valid_date (previousStartDate p) \<and> valid_date (previousEndDate p) \<and>
       days_of_date (previousEndDate p) = days_of_date s - 1 \<and>
       days_of_date (previousStartDate p) =
         days_of_date (previousEndDate p) + (days_of_date s - days_of_date e) \<and>
       days_of_date (previousEndDate p) < days_of_date (previousStartDate p)"
    using assms
    by (simp add: resolve_custom_value days_of_date_toISODate Day_of_midnight valid_toISODate)
qed

theorem reversed_range_not_rejected_witness:
  "valid_date \<lparr>year = 2024, month = 11, day = 4\<rparr> \<and>
   valid_date \<lparr>year = 2024, month = 11, day = 1\<rparr> \<and>
   four_digit_year \<lparr>year = 2024, month = 11, day = 4\<rparr> \<and>
   four_digit_year \<lparr>year = 2024, month = 11, day = 1\<rparr> \<and>
   plain_zone America_New_York_2024 \<and>
   days_of_date \<lparr>year = 2024, month = 11, day = 1\<rparr> < days_of_date \<lparr>year = 2024, month = 11, day = 4\<rparr> \<and>
   (\<exists>p. resolvePeriod America_New_York_2024 1710496800000 custom
          (Some \<lparr>year = 2024, month = 11, day = 4\<rparr>) (Some \<lparr>year = 2024, month = 11, day = 1\<rparr>) = Inr p \<and>
        currentStartDate p = \<lparr>year = 2024, month = 11, day = 4\<rparr> \<and>
        currentEndDate p = \<lparr>year = 2024, month = 11, day = 1\<rparr>) \<and>
   (\<exists>p. resolvePeriod (fixed_offset 0) 1710496800000 custom
          (Some \<lparr>year = 2024, month = 11, day = 4\<rparr>) (Some \<lparr>year = 2024, month = 11, day = 1\<rparr>) = Inr p \<and>
        days_of_date (previousEndDate p) < days_of_date (previousStartDate p))"
proof -
  have h: "valid_date \<lparr>year = 2024, month = 11, day = 4\<rparr>"
      "valid_date \<lparr>year = 2024, month = 11, day = 1\<rparr>"
      "four_digit_year \<lparr>year = 2024, month = 11, day = 4\<rparr>"
      "four_digit_year \<lparr>year = 2024, month = 11, day = 1\<rparr>"
      "days_of_date \<lparr>year = 2024, month = 11, day = 1\<rparr> < days_of_date \<lparr>year = 2024, month = 11, day = 4\<rparr>"
    by code_simp+
  have z: "plain_zone America_New_York_2024"
    by (simp add: plain_zone_def zone_offsets_def America_New_York_2024_def msPerDay_def)
  from reversed_range_not_rejected [OF h, of America_New_York_2024 1710496800000 0] h z
  show ?thesis by blast
qed

text \<open>
  Where the offset changes the previous end need not be the day before the start: in
  New York a request from 2024-11-04 back to 2024-11-01 gives 2024-11-02 as the
  previous end.
\<close>

lemma reversed_range_daylight_saving:
  "resolvePeriod America_New_York_2024 0 custom
       (Some \<lparr>year = 2024, month = 11, day = 4\<rparr>) (Some \<lparr>year = 2024, month = 11, day = 1\<rparr>) =
     Inr \<lparr>currentStartDate = \<lparr>year = 2024, month = 11, day = 4\<rparr>,
          currentEndDate = \<lparr>year = 2024, month = 11, day = 1\<rparr>,
          previousStartDate = \<lparr>year = 2024, month = 11, day = 6\<rparr>,
          previousEndDate = \<lparr>year = 2024, month = 11, day = 2\<rparr>\<rparr>"
  by code_simp

subsection \<open>The relational store\<close>

text \<open>
  The columns of the \<^verbatim>\<open>expenses\<close> and \<^verbatim>\<open>expense_categories\<close> tables that the
  queries of the insight tool and of the ingestion tool read. \<open>amount\<close> is a decimal
  column and \<open>transaction_date\<close> a date column; \<open>category_id\<close> and \<open>payment_method\<close>
  may be \<^verbatim>\<open>NULL\<close>.

  A \<open>pool\<close> is the database behind \<^verbatim>\<open>getDbPool()\<close>. A query on an unreachable
  database rejects, which is how \<^verbatim>\<open>pool.query\<close> throws.
\<close>

record expense_row =
  user_id :: int
  amount :: rat
  category_id :: "int option"
  transaction_type :: string
  payment_method :: "string option"
  transaction_date :: date

record category_row =
  cat_id :: int
  cat_name :: string

record pool =
  expenses :: "expense_row list"
  expense_categories :: "category_row list"
  reachable :: bool

definition pool_query :: "pool \<Rightarrow> 'a \<Rightarrow> error + 'a" where
  "pool_query p rows = (if reachable p then Inr rows else Inl (Error ''connection refused''))"

text \<open>
  \<^verbatim>\<open>WHERE user_id = $1 AND transaction_date BETWEEN $2 AND $3\<close>: dates compare
  chronologically. (For a bound that is not a calendar date the database raises an
  error instead. The model does not have that error: it places such a bound at the day
  number that \<open>days_of_date\<close> gives it.)
\<close>

definition in_period :: "int \<Rightarrow> date \<Rightarrow> date \<Rightarrow> expense_row \<Rightarrow> bool" where
  "in_period userId startDate endDate e \<longleftrightarrow>
     user_id e = userId \<and>
     days_of_date startDate \<le> days_of_date (transaction_date e) \<and>
     days_of_date (transaction_date e) \<le> days_of_date endDate"

text \<open>
  \<^verbatim>\<open>GROUP BY\<close>: one group per distinct key, holding the rows with that key. SQL
  leaves the order of the groups open; the model lists them in the order of \<open>remdups\<close>.
\<close>

definition group_by :: "('r \<Rightarrow> 'k) \<Rightarrow> 'r list \<Rightarrow> ('k \<times> 'r list) list" where
  "group_by key rs = map (\<lambda>k. (k, filter (\<lambda>r. key r = k) rs)) (remdups (map key rs))"

text \<open>
  \<^verbatim>\<open>ORDER BY amount DESC\<close>. SQL leaves the order of rows with equal amounts open;
  the model keeps them in their order before sorting.
\<close>

definition order_by_desc :: "('r \<Rightarrow> rat) \<Rightarrow> 'r list \<Rightarrow> 'r list" where
  "order_by_desc f rs = sort_key (\<lambda>r. - f r) rs"

text \<open>
  \<^verbatim>\<open>FROM expenses e LEFT JOIN expense_categories ec ON e.category_id = ec.id\<close>: every
  expense row is paired with the name of each category row that matches it, and with
  \<^verbatim>\<open>NULL\<close> when none matches.
\<close>

definition left_join_category :: "category_row list \<Rightarrow> expense_row \<Rightarrow> (expense_row \<times> string option) list" where
  "left_join_category cats e =
     (case filter (\<lambda>c. Some (cat_id c) = category_id e) cats of
        [] \<Rightarrow> [(e, None)]
      | ms \<Rightarrow> map (\<lambda>c. (e, Some (cat_name c))) ms)"

subsection \<open>JavaScript numbers\<close>

text \<open>
  A JavaScript number is an IEEE 754 double: a finite value, an infinity, or
  \<^verbatim>\<open>NaN\<close>. A finite double is held as the rational number that it is. The two zeros
  are held as one: the code compares its numbers, and it divides only by a number that
  it has found greater than 0 or that comes out of \<^verbatim>\<open>Math.max(x, 1)\<close>, so that it
  nowhere tells the zeros apart.
\<close>

datatype number = Num rat | Infinity | NegInfinity | NaN

text \<open>The number of binary digits of a positive integer.\<close>

function bit_length :: "int \<Rightarrow> int" where
  "bit_length n = (if n \<le> 0 then 0 else 1 + bit_length (n div 2))"
  by auto
termination
  by (relation "measure nat") auto

declare bit_length.simps [simp del]

text \<open>
  The binary exponent of a positive rational \<open>q\<close>: the \<open>e\<close> with
  \<open>2 ^ e \<le> q < 2 ^ (e + 1)\<close>.
\<close>

definition exponent_of :: "rat \<Rightarrow> int" where
  "exponent_of q =
     (if 1 \<le> q then bit_length \<lfloor>q\<rfloor> - 1
      else - bit_length (\<lceil>1 / q\<rceil> - 1))"

definition pow2 :: "int \<Rightarrow> rat" where
  "pow2 e = (if 0 \<le> e then of_int (2 ^ nat e) else 1 / of_int (2 ^ nat (- e)))"

text \<open>The nearest integer; a value half way between two integers goes to the even one.\<close>

definition round_half_even :: "rat \<Rightarrow> int" where
  "round_half_even x =
     (let f = \<lfloor>x\<rfloor>; d = x - of_int f in
      if d < 1 / 2 then f else if 1 / 2 < d then f + 1 else if even f then f else f + 1)"

text \<open>
  The double nearest to a rational (ties to even), which is what every arithmetic
  operation and every conversion from decimal text returns. Doubles with exponent
  \<open>e\<close> are the multiples of \<open>2 ^ (e - 52)\<close>; below the exponent -1022 the doubles keep
  the spacing \<open>2 ^ (- 1074)\<close>. The rounded value is \<open>n * 2 ^ (e - 52)\<close> with
  \<open>\<bar>n\<bar> \<le> 2 ^ 53\<close>; it reaches \<open>2 ^ 1024\<close>, and is replaced by an infinity, exactly
  when \<open>e\<close> is at least 1024, or \<open>e\<close> is 1023 and \<open>\<bar>n\<bar>\<close> is \<open>2 ^ 53\<close>.
\<close>

definition to_double :: "rat \<Rightarrow> number" where
  "to_double q =
     (if q = 0 then Num 0
      else
        let e = max (exponent_of \<bar>q\<bar>) (- 1022);
            ulp = pow2 (e - 52);
            n = round_half_even (q / ulp)
        in if 1024 \<le> e \<or> (e = 1023 \<and> 2 ^ 53 \<le> \<bar>n\<bar>)
           then (if 0 < q then Infinity else NegInfinity)
           else Num (of_int n * ulp))"

text \<open>The operators \<^verbatim>\<open>-x\<close>, \<^verbatim>\<open>x + y\<close>, \<^verbatim>\<open>x - y\<close>, \<^verbatim>\<open>x * y\<close> and \<^verbatim>\<open>x / y\<close>.\<close>

fun js_neg :: "number \<Rightarrow> number" where
  "js_neg (Num a) = Num (- a)"
| "js_neg Infinity = NegInfinity"
| "js_neg NegInfinity = Infinity"
| "js_neg NaN = NaN"

fun js_add :: "number \<Rightarrow> number \<Rightarrow> number" where
  "js_add (Num a) (Num b) = to_double (a + b)"
| "js_add NaN y = NaN"
| "js_add x NaN = NaN"
| "js_add Infinity NegInfinity = NaN"
| "js_add NegInfinity Infinity = NaN"
| "js_add Infinity y = Infinity"
| "js_add NegInfinity y = NegInfinity"
| "js_add (Num a) y = y"

definition js_sub :: "number \<Rightarrow> number \<Rightarrow> number" where
  "js_sub x y = js_add x (js_neg y)"

text \<open>The sign of a product or a quotient of an infinity and a finite number.\<close>

definition signed_infinity :: "bool \<Rightarrow> number" where
  "signed_infinity positive = (if positive then Infinity else NegInfinity)"

fun js_mul :: "number \<Rightarrow> number \<Rightarrow> number" where
  "js_mul (Num a) (Num b) = to_double (a * b)"
| "js_mul NaN y = NaN"
| "js_mul x NaN = NaN"
| "js_mul (Num a) Infinity = (if a = 0 then NaN else signed_infinity (0 < a))"
| "js_mul (Num a) NegInfinity = (if a = 0 then NaN else signed_infinity (a < 0))"
| "js_mul Infinity (Num b) = (if b = 0 then NaN else signed_infinity (0 < b))"
| "js_mul NegInfinity (Num b) = (if b = 0 then NaN else signed_infinity (b < 0))"
| "js_mul Infinity Infinity = Infinity"
| "js_mul NegInfinity NegInfinity = Infinity"
| "js_mul Infinity NegInfinity = NegInfinity"
| "js_mul NegInfinity Infinity = NegInfinity"

fun js_div :: "number \<Rightarrow> number \<Rightarrow> number" where
  "js_div (Num a) (Num b) =
     (if b = 0 then (if a = 0 then NaN else signed_infinity (0 < a))
      else to_double (a / b))"
| "js_div NaN y = NaN"
| "js_div x NaN = NaN"
| "js_div (Num a) y = Num 0"
| "js_div Infinity (Num b) = signed_infinity (0 \<le> b)"
| "js_div NegInfinity (Num b) = signed_infinity (b < 0)"
| "js_div x y = NaN"

text \<open>
  The comparisons \<^verbatim>\<open>x < y\<close>, \<^verbatim>\<open>x <= y\<close>, \<^verbatim>\<open>x > y\<close> and \<^verbatim>\<open>x >= y\<close>, all false when an
  operand is \<^verbatim>\<open>NaN\<close>, and \<^verbatim>\<open>Math.max(x, y)\<close>.
\<close>

fun js_less :: "number \<Rightarrow> number \<Rightarrow> bool" where
  "js_less (Num a) (Num b) \<longleftrightarrow> a < b"
| "js_less NaN y \<longleftrightarrow> False"
| "js_less x NaN \<longleftrightarrow> False"
| "js_less Infinity y \<longleftrightarrow> False"
| "js_less x NegInfinity \<longleftrightarrow> False"
| "js_less x y \<longleftrightarrow> True"

definition js_le :: "number \<Rightarrow> number \<Rightarrow> bool" where
  "js_le x y \<longleftrightarrow> x \<noteq> NaN \<and> y \<noteq> NaN \<and> \<not> js_less y x"

definition js_gt :: "number \<Rightarrow> number \<Rightarrow> bool" where
  "js_gt x y \<longleftrightarrow> js_less y x"

definition js_ge :: "number \<Rightarrow> number \<Rightarrow> bool" where
  "js_ge x y \<longleftrightarrow> js_le y x"

definition Math_max :: "number \<Rightarrow> number \<Rightarrow> number" where
  "Math_max x y = (if x = NaN \<or> y = NaN then NaN else if js_less x y then y else x)"

text \<open>
  \<^verbatim>\<open>parseFloat\<close> on the decimal text in which the database driver hands over an SQL
  \<^verbatim>\<open>numeric\<close>: the double nearest to the value that the text denotes.
\<close>

definition parseFloat_numeric :: "rat \<Rightarrow> number" where
  "parseFloat_numeric q = to_double q"

subsection \<open>The aggregation result\<close>

record category_entry =
  cb_category :: "string option"
  cb_amount :: number
  cb_percentage :: number
  cb_count :: nat

record trend_entry =
  dt_date :: date
  dt_amount :: number

record payment_entry =
  pm_method :: string
  pm_amount :: number
  pm_count :: nat

record aggregation =
  totalIncome :: number
  totalExpenses :: number
  categoryBreakdown :: "category_entry list"
  dailyTrends :: "trend_entry list"
  paymentMethods :: "payment_entry list"

subsection \<open>The financial data aggregator\<close>

text \<open>The four queries of \<^verbatim>\<open>getFinancialData\<close>, each as the rows it returns.\<close>

definition totals_rows :: "pool \<Rightarrow> int \<Rightarrow> date \<Rightarrow> date \<Rightarrow> (string \<times> rat) list" where
  "totals_rows p userId startDate endDate =
     map (\<lambda>(ty, rs). (ty, sum_list (map amount rs)))
       (group_by transaction_type (filter (in_period userId startDate endDate) (expenses p)))"

definition category_rows :: "pool \<Rightarrow> int \<Rightarrow> date \<Rightarrow> date \<Rightarrow> (string option \<times> rat \<times> nat) list" where
  "category_rows p userId startDate endDate =
     order_by_desc (\<lambda>(c, a, n). a)
       (map (\<lambda>(c, rs). (c, sum_list (map (\<lambda>(e, c). amount e) rs), length rs))
         (group_by snd
           (concat (map (left_join_category (expense_categories p))
             (filter (\<lambda>e. in_period userId startDate endDate e \<and> transaction_type e = ''expense'')
               (expenses p))))))"

definition trends_rows :: "pool \<Rightarrow> int \<Rightarrow> date \<Rightarrow> date \<Rightarrow> (date \<times> rat) list" where
  "trends_rows p userId startDate endDate =
     sort_key (\<lambda>(d, a). days_of_date d)
       (map (\<lambda>(d, rs). (d, sum_list (map amount rs)))
         (group_by transaction_date
           (filter (\<lambda>e. in_period userId startDate endDate e \<and> transaction_type e = ''expense'')
             (expenses p))))"

definition payment_rows :: "pool \<Rightarrow> int \<Rightarrow> date \<Rightarrow> date \<Rightarrow> (string \<times> rat \<times> nat) list" where
  "payment_rows p userId startDate endDate =
     order_by_desc (\<lambda>(m, a, n). a)
       (map (\<lambda>(m, rs). (case m of None \<Rightarrow> ''Not specified'' | Some s \<Rightarrow> s,
                          sum_list (map amount rs), length rs))
         (group_by payment_method
           (filter (in_period userId startDate endDate) (expenses p))))"

text \<open>
  The \<^verbatim>\<open>forEach\<close> over the totals rows assigns the two running variables
  \<^verbatim>\<open>totalIncome\<close> and \<^verbatim>\<open>totalExpenses\<close>, here the pair \<open>(ti, te)\<close>.
\<close>

definition totals_step :: "string \<times> rat \<Rightarrow> number \<times> number \<Rightarrow> number \<times> number" where
  "totals_step row acc =
     (case acc of (ti, te) \<Rightarrow>
        if fst row = ''income'' then (parseFloat_numeric (snd row), te)
        else if fst row = ''expense'' then (ti, parseFloat_numeric (snd row))
        else (ti, te))"

definition getFinancialData :: "pool \<Rightarrow> int \<Rightarrow> date \<Rightarrow> date \<Rightarrow> error + aggregation" where
  "getFinancialData p userId startDate endDate =
     (case pool_query p (totals_rows p userId startDate endDate) of
        Inl err \<Rightarrow> Inl err
      | Inr totalsResult \<Rightarrow>
     (let (totalIncome, totalExpenses) = fold totals_step totalsResult (Num 0, Num 0) in
     (case pool_query p (category_rows p userId startDate endDate) of
        Inl err \<Rightarrow> Inl err
      | Inr categoryResult \<Rightarrow>
     (let categoryBreakdown =
            map (\<lambda>(c, a, n).
                  \<lparr>cb_category = c, cb_amount = parseFloat_numeric a,
                   cb_percentage =
                     (if js_gt totalExpenses (Num 0)
                      then js_mul (js_div (parseFloat_numeric a) totalExpenses) (Num 100)
                      else Num 0),
                   cb_count = n\<rparr>) categoryResult
      in
     (case pool_query p (trends_rows p userId startDate endDate) of
        Inl err \<Rightarrow> Inl err
      | Inr trendsResult \<Rightarrow>
     (let dailyTrends =
            map (\<lambda>(d, a). \<lparr>dt_date = d, dt_amount = parseFloat_numeric a\<rparr>) trendsResult
      in
     (case pool_query p (payment_rows p userId startDate endDate) of
        Inl err \<Rightarrow> Inl err
      | Inr paymentResult \<Rightarrow>
     (let paymentMethods =
            map (\<lambda>(m, a, n). \<lparr>pm_method = m, pm_amount = parseFloat_numeric a, pm_count = n\<rparr>)
              paymentResult
      in Inr \<lparr>totalIncome = totalIncome, totalExpenses = totalExpenses,
              categoryBreakdown = categoryBreakdown, dailyTrends = dailyTrends,
              paymentMethods = paymentMethods\<rparr>))))))))"

subsection \<open>The health scorer\<close>

record health =
  score :: int
  status :: string
  areas :: "string list"

definition calculateFinancialHealth :: "aggregation \<Rightarrow> health" where
  "calculateFinancialHealth data =
     (let score = 0;
          areas = [];
          savingsRate =
            (if js_gt (totalIncome data) (Num 0)
             then js_mul (js_div (js_sub (totalIncome data) (totalExpenses data))
                            (totalIncome data)) (Num 100)
             else Num 0);
          score =
            (if js_ge savingsRate (Num 20) then score + 40
             else if js_ge savingsRate (Num 10) then score + 30
             else if js_ge savingsRate (Num 0) then score + 20
             else score + 0);
          areas = (if js_less savingsRate (Num 20) then areas @ [''Increase savings rate'']
                   else areas);
          topCategoryPercentage =
            (case categoryBreakdown data of [] \<Rightarrow> Num 0 | c # cs \<Rightarrow> cb_percentage c);
          score =
            (if js_le topCategoryPercentage (Num 40) then score + 30
             else if js_le topCategoryPercentage (Num 50) then score + 20
             else score + 10);
          areas =
            (if js_gt topCategoryPercentage (Num 40)
             then areas @ [''Diversify spending across categories''] else areas);
          regularityScore = (if length (dailyTrends data) \<ge> 7 then 30 else 20);
          score = score + regularityScore;
          areas =
            (if length (dailyTrends data) < 7
             then areas @ [''Maintain regular expense tracking''] else areas);
          status =
            (if score \<ge> 80 then ''Excellent''
             else if score \<ge> 60 then ''Good''
             else if score \<ge> 40 then ''Fair''
             else ''Needs Improvement'')
      in \<lparr>score = score, status = status, areas = areas\<rparr>)"

text \<open>
  The three contributions and the status label as section 4.3 of the specification
  words them, to compare with the code above. The savings rate and the thresholds are
  read in the arithmetic of JavaScript numbers: every operation gives the double
  nearest to its exact result.
\<close>

definition spec_savingsRate :: "number \<Rightarrow> number \<Rightarrow> number" where
  "spec_savingsRate income expense =
     (if js_gt income (Num 0) then js_mul (js_div (js_sub income expense) income) (Num 100)
      else Num 0)"

definition savings_contribution :: "number \<Rightarrow> int" where
  "savings_contribution savingsRate =
     (if js_ge savingsRate (Num 20) then 40 else if js_ge savingsRate (Num 10) then 30
      else if js_ge savingsRate (Num 0) then 20 else 0)"

definition top_percentage :: "category_entry list \<Rightarrow> number" where
  "top_percentage cs = (case cs of [] \<Rightarrow> Num 0 | c # _ \<Rightarrow> cb_percentage c)"

definition concentration_contribution :: "number \<Rightarrow> int" where
  "concentration_contribution pct =
     (if js_le pct (Num 40) then 30 else if js_le pct (Num 50) then 20 else 10)"

definition regularity_contribution :: "nat \<Rightarrow> int" where
  "regularity_contribution distinctDates = (if distinctDates \<ge> 7 then 30 else 20)"

definition status_label :: "int \<Rightarrow> string" where
  "status_label s =
     (if s \<ge> 80 then ''Excellent'' else if s \<ge> 60 then ''Good''
      else if s \<ge> 40 then ''Fair'' else ''Needs Improvement'')"

text \<open>
  The savings rate and its contribution as the same section words them, read in exact
  arithmetic on the values of the two totals.
\<close>

definition exact_savingsRate :: "rat \<Rightarrow> rat \<Rightarrow> rat" where
  "exact_savingsRate income expense =
     (if income > 0 then (income - expense) / income * 100 else 0)"

definition exact_savings_contribution :: "rat \<Rightarrow> int" where
  "exact_savings_contribution savingsRate =
     (if savingsRate \<ge> 20 then 40 else if savingsRate \<ge> 10 then 30
      else if savingsRate \<ge> 0 then 20 else 0)"

subsection \<open>Facts about the aggregator\<close>

















lemma getFinancialData_reachable:
  assumes "reachable p"
  shows "getFinancialData p userId startDate endDate =
     Inr \<lparr>totalIncome = fst (fold totals_step (totals_rows p userId startDate endDate) (Num 0, Num 0)),
          totalExpenses = snd (fold totals_step (totals_rows p userId startDate endDate) (Num 0, Num 0)),
          categoryBreakdown =
            map (\<lambda>(c, a, n).
                  \<lparr>cb_category = c, cb_amount = parseFloat_numeric a,
                   cb_percentage =
                     (if js_gt (snd (fold totals_step (totals_rows p userId startDate endDate)
                                       (Num 0, Num 0))) (Num 0)
                      then js_mul (js_div (parseFloat_numeric a)
                             (snd (fold totals_step (totals_rows p userId startDate endDate)
                                     (Num 0, Num 0)))) (Num 100)
                      else Num 0),
                   cb_count = n\<rparr>) (category_rows p userId startDate endDate),
          dailyTrends =
            map (\<lambda>(d, a). \<lparr>dt_date = d, dt_amount = parseFloat_numeric a\<rparr>)
              (trends_rows p userId startDate endDate),
          paymentMethods =
            map (\<lambda>(m, a, n). \<lparr>pm_method = m, pm_amount = parseFloat_numeric a, pm_count = n\<rparr>)
              (payment_rows p userId startDate endDate)\<rparr>"
  using assms by (simp add: getFinancialData_def pool_query_def Let_def case_prod_unfold)

text \<open>
  The daily trends hold one entry for each date on which the user has an expense in the
  interval, so their number is the number of distinct expense dates.
\<close>

lemma distinct_map_sort_key:
  assumes "distinct (map f xs)"
  shows "distinct (map f (sort_key k xs))"
proof (rule card_distinct)
  have "card (set (map f (sort_key k xs))) = card (set (map f xs))"
    by (simp only: set_map set_sort)
  also have "\<dots> = length (map f xs)" using assms by (rule distinct_card)
  also have "\<dots> = length (map f (sort_key k xs))" by simp
  finally show "card (set (map f (sort_key k xs))) = length (map f (sort_key k xs))" .
qed

lemma getFinancialData_Inr_reachable:
  "getFinancialData p userId startDate endDate = Inr agg \<Longrightarrow> reachable p"
  by (cases "reachable p") (simp_all add: getFinancialData_def pool_query_def)

lemma dailyTrends_dates:
  assumes "getFinancialData p userId startDate endDate = Inr agg"
  shows "distinct (map dt_date (dailyTrends agg)) \<and>
     set (map dt_date (dailyTrends agg)) =
       transaction_date `
         {e \<in> set (expenses p).
            in_period userId startDate endDate e \<and> transaction_type e = ''expense''}"
proof -
  let ?E = "filter (\<lambda>e. in_period userId startDate endDate e \<and> transaction_type e = ''expense'')
      (expenses p)"
  let ?G = "map (\<lambda>(d, rs). (d, sum_list (map amount rs))) (group_by transaction_date ?E)"
  have r: "reachable p" using assms by (rule getFinancialData_Inr_reachable)
  have "dailyTrends agg =
      map (\<lambda>(d, a). \<lparr>dt_date = d, dt_amount = parseFloat_numeric a\<rparr>)
        (trends_rows p userId startDate endDate)"
    using assms by (simp add: getFinancialData_reachable [OF r]) auto
  then have m: "map dt_date (dailyTrends agg) = map fst (sort_key (\<lambda>(d, a). days_of_date d) ?G)"
    by (simp add: trends_rows_def comp_def case_prod_unfold)
  have g: "map fst ?G = remdups (map transaction_date ?E)"
    by (simp add: group_by_def comp_def)
  have "distinct (map fst ?G)" by (simp only: g distinct_remdups)
  then have "distinct (map fst (sort_key (\<lambda>(d, a). days_of_date d) ?G))"
    by (rule distinct_map_sort_key)
  moreover have "set (map fst (sort_key (\<lambda>(d, a). days_of_date d) ?G)) = set (map fst ?G)"
    by (simp only: set_map set_sort)
  ultimately show ?thesis
    unfolding m by (simp only: g set_remdups) auto
qed

lemma group_by_Nil: "group_by key [] = []"
  by (simp add: group_by_def)

subsection \<open>Claims about the aggregator\<close>

text \<open>
  A sample database: user 1 has four expenses and one income in March 2024 (one expense
  without a category, one without a payment method) and one expense in April; user 2
  has one expense.
\<close>

definition sample_pool :: pool where
  "sample_pool =
     \<lparr>expenses =
        [\<lparr>user_id = 1, amount = 500, category_id = Some 1, transaction_type = ''expense'',
          payment_method = Some ''UPI'', transaction_date = \<lparr>year = 2024, month = 3, day = 2\<rparr>\<rparr>,
         \<lparr>user_id = 1, amount = 120, category_id = Some 2, transaction_type = ''expense'',
          payment_method = None, transaction_date = \<lparr>year = 2024, month = 3, day = 2\<rparr>\<rparr>,
         \<lparr>user_id = 1, amount = 130, category_id = Some 1, transaction_type = ''expense'',
          payment_method = Some ''Cash'', transaction_date = \<lparr>year = 2024, month = 3, day = 9\<rparr>\<rparr>,
         \<lparr>user_id = 1, amount = 40, category_id = None, transaction_type = ''expense'',
          payment_method = Some ''UPI'', transaction_date = \<lparr>year = 2024, month = 3, day = 31\<rparr>\<rparr>,
         \<lparr>user_id = 1, amount = 50000, category_id = Some 3, transaction_type = ''income'',
          payment_method = Some ''Net Banking'', transaction_date = \<lparr>year = 2024, month = 3, day = 1\<rparr>\<rparr>,
         \<lparr>user_id = 1, amount = 999, category_id = Some 1, transaction_type = ''expense'',
          payment_method = Some ''UPI'', transaction_date = \<lparr>year = 2024, month = 4, day = 1\<rparr>\<rparr>,
         \<lparr>user_id = 2, amount = 77, category_id = Some 2, transaction_type = ''expense'',
          payment_method = Some ''UPI'', transaction_date = \<lparr>year = 2024, month = 3, day = 5\<rparr>\<rparr>],
      expense_categories =
        [\<lparr>cat_id = 1, cat_name = ''Food & Dining''\<rparr>,
         \<lparr>cat_id = 2, cat_name = ''Transportation''\<rparr>,
         \<lparr>cat_id = 3, cat_name = ''Miscellaneous''\<rparr>],
      reachable = True\<rparr>"
















text \<open>The result for a period without transactions.\<close>

definition empty_aggregation :: aggregation where
  "empty_aggregation =
     \<lparr>totalIncome = Num 0, totalExpenses = Num 0, categoryBreakdown = [], dailyTrends = [],
      paymentMethods = []\<rparr>"

text \<open>
  Claim C5. For a user without transactions in the requested period the aggregator
  returns zero totals and empty category, daily-trend and payment-method lists; on that
  result the savings contribution is 20, the concentration contribution 30 and the
  regularity contribution 20, and the health scorer returns score 70 and status "Good".
\<close>

theorem no_transactions_score_70:
  assumes "reachable p"
    and "\<forall>e \<in> set (expenses p). \<not> in_period userId startDate endDate e"
  shows "getFinancialData p userId startDate endDate = Inr empty_aggregation \<and>
     savings_contribution
       (spec_savingsRate (totalIncome empty_aggregation) (totalExpenses empty_aggregation)) = 20 \<and>
     concentration_contribution (top_percentage (categoryBreakdown empty_aggregation)) = 30 \<and>
     regularity_contribution (length (dailyTrends empty_aggregation)) = 20 \<and>
     calculateFinancialHealth empty_aggregation =
       \<lparr>score = 70, status = ''Good'',
        areas = [''Increase savings rate'', ''Maintain regular expense tracking'']\<rparr>"
proof (intro conjI)
  from assms(2) have f: "filter (in_period userId startDate endDate) (expenses p) = []"
    by (simp add: filter_empty_conv)
  then have g: "filter (\<lambda>e. in_period userId startDate endDate e \<and> transaction_type e = ''expense'')
      (expenses p) = []"
    by (simp add: filter_empty_conv)
  have "totals_rows p userId startDate endDate = []"
      "category_rows p userId startDate endDate = []"
      "trends_rows p userId startDate endDate = []"
      "payment_rows p userId startDate endDate = []"
    by (simp_all add: totals_rows_def category_rows_def trends_rows_def payment_rows_def
        f g group_by_Nil order_by_desc_def)
  then show "getFinancialData p userId startDate endDate = Inr empty_aggregation"
    by (simp add: getFinancialData_reachable [OF assms(1)] empty_aggregation_def)
  show "savings_contribution
       (spec_savingsRate (totalIncome empty_aggregation) (totalExpenses empty_aggregation)) = 20"
    by (simp add: empty_aggregation_def spec_savingsRate_def savings_contribution_def
        js_gt_def js_ge_def js_le_def)
  show "concentration_contribution (top_percentage (categoryBreakdown empty_aggregation)) = 30"
    by (simp add: empty_aggregation_def top_percentage_def concentration_contribution_def
        js_le_def)
  show "regularity_contribution (length (dailyTrends empty_aggregation)) = 20"
    by (simp add: empty_aggregation_def regularity_contribution_def)
  show "calculateFinancialHealth empty_aggregation =
       \<lparr>score = 70, status = ''Good'',
        areas = [''Increase savings rate'', ''Maintain regular expense tracking'']\<rparr>"
    by (simp add: empty_aggregation_def calculateFinancialHealth_def
        js_gt_def js_ge_def js_le_def)
qed

theorem no_transactions_score_70_witness:
  "reachable sample_pool \<and>
   list_all (\<lambda>e. \<not> in_period 1 \<lparr>year = 2023, month = 1, day = 1\<rparr> \<lparr>year = 2023, month = 12, day = 31\<rparr> e)
     (expenses sample_pool) \<and>
   getFinancialData sample_pool 1 \<lparr>year = 2023, month = 1, day = 1\<rparr>
     \<lparr>year = 2023, month = 12, day = 31\<rparr> = Inr empty_aggregation \<and>
   score (calculateFinancialHealth empty_aggregation) = 70 \<and>
   status (calculateFinancialHealth empty_aggregation) = ''Good''"
proof -
  have r: "reachable sample_pool" by (simp add: sample_pool_def)
  have n: "list_all (\<lambda>e. \<not> in_period 1 \<lparr>year = 2023, month = 1, day = 1\<rparr> \<lparr>year = 2023, month = 12, day = 31\<rparr> e)
     (expenses sample_pool)"
    by code_simp
  then have "\<forall>e \<in> set (expenses sample_pool).
      \<not> in_period 1 \<lparr>year = 2023, month = 1, day = 1\<rparr> \<lparr>year = 2023, month = 12, day = 31\<rparr> e"
    by (simp add: list_all_iff)
  from no_transactions_score_70 [OF r this] r n show ?thesis by simp
qed

subsection \<open>Claims about the health scorer\<close>

text \<open>The aggregation of scenario 2 of the specification.\<close>

definition scenario2 :: aggregation where
  "scenario2 =
     \<lparr>totalIncome = Num 60000, totalExpenses = Num 45000,
      categoryBreakdown =
        [\<lparr>cb_category = Some ''Shopping'', cb_amount = Num 15750, cb_percentage = Num 35,
          cb_count = 3\<rparr>,
         \<lparr>cb_category = Some ''Food & Dining'', cb_amount = Num 14625,
          cb_percentage = Num (65 / 2), cb_count = 12\<rparr>,
         \<lparr>cb_category = Some ''Transportation'', cb_amount = Num 14625,
          cb_percentage = Num (65 / 2), cb_count = 9\<rparr>],
      dailyTrends =
        map (\<lambda>d. \<lparr>dt_date = \<lparr>year = 2024, month = 3, day = d\<rparr>, dt_amount = Num 4500\<rparr>)
          [1, 2, 3, 4, 5, 6, 7, 8, 9, 10],
      paymentMethods = [\<lparr>pm_method = ''UPI'', pm_amount = Num 105000, pm_count = 25\<rparr>]\<rparr>"

text \<open>
  A database with an income of 2.25 and an expense of 1.80, and the aggregation that
  the aggregator returns for it: 1.80 is not a double, and the total is the double
  next to it.
\<close>

definition rounding_pool :: pool where
  "rounding_pool =
     \<lparr>expenses =
        [\<lparr>user_id = 1, amount = 9 / 4, category_id = None, transaction_type = ''income'',
          payment_method = Some ''UPI'', transaction_date = \<lparr>year = 2024, month = 3, day = 1\<rparr>\<rparr>,
         \<lparr>user_id = 1, amount = 9 / 5, category_id = Some 1, transaction_type = ''expense'',
          payment_method = Some ''UPI'', transaction_date = \<lparr>year = 2024, month = 3, day = 2\<rparr>\<rparr>],
      expense_categories = [\<lparr>cat_id = 1, cat_name = ''Food & Dining''\<rparr>],
      reachable = True\<rparr>"

definition rounding_aggregation :: aggregation where
  "rounding_aggregation =
     \<lparr>totalIncome = Num (9 / 4),
      totalExpenses = Num (8106479329266893 / 4503599627370496),
      categoryBreakdown =
        [\<lparr>cb_category = Some ''Food & Dining'',
          cb_amount = Num (8106479329266893 / 4503599627370496),
          cb_percentage = Num 100, cb_count = 1\<rparr>],
      dailyTrends =
        [\<lparr>dt_date = \<lparr>year = 2024, month = 3, day = 2\<rparr>,
          dt_amount = Num (8106479329266893 / 4503599627370496)\<rparr>],
      paymentMethods =
        [\<lparr>pm_method = ''UPI'', pm_amount = Num (4559894622712627 / 1125899906842624),
          pm_count = 2\<rparr>]\<rparr>"

lemma savingsRate_scenario2: "spec_savingsRate (Num 60000) (Num 45000) = Num 25"
  by code_simp

text \<open>
  Claim C1, as the code has it. For every aggregation result the score of
  \<open>calculateFinancialHealth\<close> is the sum of the savings contribution, the concentration
  contribution (from the top category's percentage, 0 without categories) and the
  regularity contribution (from the number of entries of the daily trends, which the
  aggregator fills with one entry for each expense date), and the status is the label
  of that score. The savings rate, (income - expense) / income * 100 when income is
  greater than 0 and 0 otherwise, is computed and compared with the thresholds in the
  arithmetic of JavaScript numbers, each operation giving the double nearest to its
  exact result. With income 60000, expense 45000, a top category at 35 percent and 10
  expense dates the score is 100 and the status "Excellent".
\<close>

theorem health_score_formula:
  "score (calculateFinancialHealth d) =
       savings_contribution (spec_savingsRate (totalIncome d) (totalExpenses d))
     + concentration_contribution (top_percentage (categoryBreakdown d))
     + regularity_contribution (length (dailyTrends d))
   \<and> status (calculateFinancialHealth d) = status_label (score (calculateFinancialHealth d))
   \<and> (totalIncome d = Num 60000 \<and> totalExpenses d = Num 45000 \<and>
        categoryBreakdown d \<noteq> [] \<and> top_percentage (categoryBreakdown d) = Num 35 \<and>
        length (dailyTrends d) = 10 \<longrightarrow>
        score (calculateFinancialHealth d) = 100 \<and>
        status (calculateFinancialHealth d) = ''Excellent'')"
proof (intro conjI impI)
  show f: "score (calculateFinancialHealth d) =
       savings_contribution (spec_savingsRate (totalIncome d) (totalExpenses d))
     + concentration_contribution (top_percentage (categoryBreakdown d))
     + regularity_contribution (length (dailyTrends d))"
    by (simp add: calculateFinancialHealth_def Let_def savings_contribution_def
        spec_savingsRate_def concentration_contribution_def top_percentage_def
        regularity_contribution_def)
  show s: "status (calculateFinancialHealth d) = status_label (score (calculateFinancialHealth d))"
    by (simp add: calculateFinancialHealth_def Let_def status_label_def)
  assume a: "totalIncome d = Num 60000 \<and> totalExpenses d = Num 45000 \<and>
        categoryBreakdown d \<noteq> [] \<and> top_percentage (categoryBreakdown d) = Num 35 \<and>
        length (dailyTrends d) = 10"
  then have "spec_savingsRate (totalIncome d) (totalExpenses d) = Num 25"
    by (simp add: savingsRate_scenario2)
  with a f show v: "score (calculateFinancialHealth d) = 100"
    by (simp add: savings_contribution_def concentration_contribution_def
        regularity_contribution_def js_ge_def js_le_def)
  show "status (calculateFinancialHealth d) = ''Excellent''"
    unfolding s v by (simp add: status_label_def)
qed

theorem health_score_formula_witness:
  "totalIncome scenario2 = Num 60000 \<and> totalExpenses scenario2 = Num 45000 \<and>
   categoryBreakdown scenario2 \<noteq> [] \<and> top_percentage (categoryBreakdown scenario2) = Num 35 \<and>
   length (dailyTrends scenario2) = 10 \<and>
   score (calculateFinancialHealth scenario2) = 100 \<and>
   status (calculateFinancialHealth scenario2) = ''Excellent''"
proof -
  have h: "totalIncome scenario2 = Num 60000 \<and> totalExpenses scenario2 = Num 45000 \<and>
      categoryBreakdown scenario2 \<noteq> [] \<and> top_percentage (categoryBreakdown scenario2) = Num 35 \<and>
      length (dailyTrends scenario2) = 10"
    by (simp add: scenario2_def top_percentage_def)
  with health_score_formula [of scenario2] show ?thesis by blast
qed

text \<open>
  Claim C1 as stated fails, the savings rate being read in exact arithmetic. For an
  income of 2.25 and an expense of 1.80 the aggregator returns the totals 2.25 and the
  double next to 1.8, which is greater than 1.8. On these two numbers the code
  computes the savings rate 20 (the quotient and the product are rounded), adds 40
  points and returns the score 70; their exact savings rate is less than 20, which
  makes 30 points and the score 60.
\<close>

theorem health_score_rounding_counterexample:
  "getFinancialData rounding_pool 1 \<lparr>year = 2024, month = 3, day = 1\<rparr>
       \<lparr>year = 2024, month = 3, day = 31\<rparr> = Inr rounding_aggregation
   \<and> spec_savingsRate (totalIncome rounding_aggregation) (totalExpenses rounding_aggregation)
       = Num 20
   \<and> calculateFinancialHealth rounding_aggregation =
       \<lparr>score = 70, status = ''Good'', areas = [''Diversify spending across categories'',
          ''Maintain regular expense tracking'']\<rparr>
   \<and> exact_savingsRate (9 / 4) (8106479329266893 / 4503599627370496) < 20
   \<and> exact_savings_contribution
         (exact_savingsRate (9 / 4) (8106479329266893 / 4503599627370496))
       + concentration_contribution (top_percentage (categoryBreakdown rounding_aggregation))
       + regularity_contribution (length (dailyTrends rounding_aggregation)) = 60"
  by code_simp

subsection \<open>JavaScript strings\<close>

text \<open>
  A JavaScript string is a sequence of UTF-16 code units; \<^verbatim>\<open>length\<close>,
  \<^verbatim>\<open>substring\<close>, \<^verbatim>\<open>includes\<close> and the regular expressions of the code work on
  code units. \<open>of_ascii\<close> embeds the ASCII literals of the source.
\<close>

type_synonym jsstring = "nat list"

definition of_ascii :: "string \<Rightarrow> jsstring" where
  "of_ascii s = map of_char s"

text \<open>The rupee sign, U+20B9.\<close>

definition rupee :: nat where
  "rupee = 8377"

text \<open>\<^verbatim>\<open>\d\<close> without the unicode flag: the ten ASCII digits.\<close>

definition isDigit :: "nat \<Rightarrow> bool" where
  "isDigit c \<longleftrightarrow> 48 \<le> c \<and> c \<le> 57"

text \<open>\<^verbatim>\<open>[A-Za-z]\<close>; under the \<^verbatim>\<open>i\<close> flag it matches the same code units.\<close>

definition isLetter :: "nat \<Rightarrow> bool" where
  "isLetter c \<longleftrightarrow> (65 \<le> c \<and> c \<le> 90) \<or> (97 \<le> c \<and> c \<le> 122)"

text \<open>\<^verbatim>\<open>\s\<close>, which is also what \<^verbatim>\<open>trim\<close> strips: white space and line terminators.\<close>

definition isSpace :: "nat \<Rightarrow> bool" where
  "isSpace c \<longleftrightarrow>
     (9 \<le> c \<and> c \<le> 13) \<or> c = 32 \<or> c = 160 \<or> c = 5760 \<or> (8192 \<le> c \<and> c \<le> 8202) \<or>
     c = 8232 \<or> c = 8233 \<or> c = 8239 \<or> c = 8287 \<or> c = 12288 \<or> c = 65279"

definition trim :: "jsstring \<Rightarrow> jsstring" where
  "trim s = rev (dropWhile isSpace (rev (dropWhile isSpace s)))"

text \<open>\<^verbatim>\<open>s.includes(sub)\<close>: \<open>sub\<close> occurs in \<open>s\<close> at some position.\<close>

fun includes_js :: "jsstring \<Rightarrow> jsstring \<Rightarrow> bool" where
  "includes_js [] sub = (sub = [])"
| "includes_js (c # cs) sub = (take (length sub) (c # cs) = sub \<or> includes_js cs sub)"

text \<open>
  \<^verbatim>\<open>s.toLowerCase()\<close> follows the Unicode character database, which is not
  modelled: the functions that call it take it as the parameter \<open>lc\<close>.
  \<open>toLowerCase_ascii\<close> is its restriction to the letters of Basic Latin, all other
  code units unchanged; it agrees with \<^verbatim>\<open>toLowerCase\<close> on strings of ASCII
  characters and characters without case, such as the rupee sign.
\<close>

definition toLowerCase_ascii :: "jsstring \<Rightarrow> jsstring" where
  "toLowerCase_ascii s = map (\<lambda>c. if 65 \<le> c \<and> c \<le> 90 then c + 32 else c) s"

subsection \<open>The fallback parser\<close>

text \<open>
  \<^verbatim>\<open>entry.match(/R(\d+(?:,\d+)*(?:\.\d+)?)/)\<close>, where \<^verbatim>\<open>R\<close> stands for the
  rupee sign. \<open>amount_tail\<close> is the text that
  \<^verbatim>\<open>(?:,\d+)*(?:\.\d+)?\<close> matches at the start of its input: every quantifier is
  greedy and nothing follows them in the pattern, so each takes all it can.
\<close>

function amount_tail :: "jsstring \<Rightarrow> jsstring" where
  "amount_tail [] = []"
| "amount_tail [c] = []"
| "amount_tail (c # d # cs) =
     (if c = 44 \<and> isDigit d then
        c # takeWhile isDigit (d # cs) @ amount_tail (dropWhile isDigit (d # cs))
      else if c = 46 \<and> isDigit d then c # takeWhile isDigit (d # cs)
      else [])"
  by pat_completeness auto
termination
proof (relation "measure length")
  show "wf (measure length)" by simp
next
  fix c d :: nat and cs :: jsstring
  have "length (dropWhile isDigit (d # cs)) \<le> length (d # cs)"
    by (rule length_dropWhile_le)
  then show "(dropWhile isDigit (d # cs), c # d # cs) \<in> measure length"
    by simp
qed

text \<open>The capture group when the pattern matches at the start of the input.\<close>

fun amount_at :: "jsstring \<Rightarrow> jsstring option" where
  "amount_at (c # d # cs) =
     (if c = rupee \<and> isDigit d
      then Some (takeWhile isDigit (d # cs) @ amount_tail (dropWhile isDigit (d # cs)))
      else None)"
| "amount_at cs = None"

text \<open>The leftmost match: group 1 of \<^verbatim>\<open>amountMatch\<close>, or \<open>None\<close> for \<^verbatim>\<open>null\<close>.\<close>

fun amountMatch :: "jsstring \<Rightarrow> jsstring option" where
  "amountMatch [] = None"
| "amountMatch (c # cs) =
     (case amount_at (c # cs) of Some m \<Rightarrow> Some m | None \<Rightarrow> amountMatch cs)"

definition digits_value :: "jsstring \<Rightarrow> nat" where
  "digits_value ds = foldl (\<lambda>a c. 10 * a + (c - 48)) 0 ds"

text \<open>
  \<^verbatim>\<open>parseFloat\<close> on the text it is given here, digits with an optional fraction:
  the decimal number they write.
\<close>

definition parseFloat :: "jsstring \<Rightarrow> rat" where
  "parseFloat s =
     (let ip = takeWhile isDigit s; r = dropWhile isDigit s in
      case r of
        d # fs \<Rightarrow>
          if d = 46 \<and> takeWhile isDigit fs \<noteq> []
          then of_nat (digits_value ip)
             + of_nat (digits_value (takeWhile isDigit fs)) / 10 ^ length (takeWhile isDigit fs)
          else of_nat (digits_value ip)
      | [] \<Rightarrow> of_nat (digits_value ip))"

text \<open>
  \<^verbatim>\<open>entry.match(/at\s+([A-Za-z\s]+)/i)\<close>. After \<^verbatim>\<open>at\<close> the greedy
  \<^verbatim>\<open>\s+\<close> takes the whole run of white space. When a letter follows, the group is
  the run of letters and white space from there. Otherwise the matcher backtracks:
  \<^verbatim>\<open>\s+\<close> gives back its last white space, if it has two or more, and the group
  is that one code unit.
\<close>

fun merchant_at :: "jsstring \<Rightarrow> jsstring option" where
  "merchant_at (a # t # cs) =
     (if (a = 97 \<or> a = 65) \<and> (t = 116 \<or> t = 84) then
        (let ws = takeWhile isSpace cs; rest = dropWhile isSpace cs in
         if ws = [] then None
         else if rest \<noteq> [] \<and> isLetter (hd rest)
           then Some (takeWhile (\<lambda>c. isLetter c \<or> isSpace c) rest)
         else if length ws \<ge> 2 then Some [last ws]
         else None)
      else None)"
| "merchant_at cs = None"

fun merchantMatch :: "jsstring \<Rightarrow> jsstring option" where
  "merchantMatch [] = None"
| "merchantMatch (c # cs) =
     (case merchant_at (c # cs) of Some m \<Rightarrow> Some m | None \<Rightarrow> merchantMatch cs)"

definition incomeKeywords :: "string list" where
  "incomeKeywords = [''salary'', ''income'', ''payment received'', ''earned'', ''bonus'']"

text \<open>The entries of \<^verbatim>\<open>categoryMap\<close> in the order \<^verbatim>\<open>Object.entries\<close> lists them.\<close>

definition categoryMap :: "(string \<times> string) list" where
  "categoryMap =
     [(''grocery'', ''Food & Dining''),
      (''groceries'', ''Food & Dining''),
      (''food'', ''Food & Dining''),
      (''restaurant'', ''Food & Dining''),
      (''taxi'', ''Transportation''),
      (''auto'', ''Transportation''),
      (''petrol'', ''Transportation''),
      (''fuel'', ''Transportation''),
      (''bill'', ''Bills & Utilities''),
      (''electricity'', ''Bills & Utilities''),
      (''mobile'', ''Bills & Utilities''),
      (''shopping'', ''Shopping''),
      (''clothes'', ''Shopping''),
      (''movie'', ''Entertainment''),
      (''entertainment'', ''Entertainment''),
      (''doctor'', ''Healthcare''),
      (''medicine'', ''Healthcare''),
      (''school'', ''Education''),
      (''travel'', ''Travel & Vacation'')]"

text \<open>The category enumeration, as the extraction prompt of the ingestion tool lists it.\<close>

definition category_enum :: "string list" where
  "category_enum =
     [''Food & Dining'', ''Transportation'', ''Bills & Utilities'', ''Shopping'',
      ''Entertainment'', ''Healthcare'', ''Education'', ''Personal Care'',
      ''Travel & Vacation'', ''Family & Kids'', ''Gifts & Donations'', ''Business'',
      ''Investment'', ''EMI & Loans'', ''Miscellaneous'']"

record extracted =
  ex_amount :: rat
  ex_description :: jsstring
  ex_category :: string
  ex_transactionType :: string
  ex_merchantName :: "jsstring option"
  ex_confidence :: rat

text \<open>The \<^verbatim>\<open>for\<close> loop over the category map: the first keyword that occurs wins.\<close>

fun category_loop :: "jsstring \<Rightarrow> (string \<times> string) list \<Rightarrow> string \<Rightarrow> string" where
  "category_loop lowered [] category = category"
| "category_loop lowered ((keyword, cat) # rest) category =
     (if includes_js lowered (of_ascii keyword) then cat
      else category_loop lowered rest category)"

definition parseExpenseWithFallback :: "(jsstring \<Rightarrow> jsstring) \<Rightarrow> jsstring \<Rightarrow> extracted" where
  "parseExpenseWithFallback lc entry =
     (let amount =
            (case amountMatch entry of
               Some g \<Rightarrow> parseFloat (filter (\<lambda>c. c \<noteq> 44) g)
             | None \<Rightarrow> 100);
          transactionType =
            (if list_ex (\<lambda>keyword. includes_js (lc entry) (of_ascii keyword)) incomeKeywords
             then ''income'' else ''expense'');
          category = category_loop (lc entry) categoryMap ''Miscellaneous'';
          merchantName =
            (case merchantMatch entry of Some g \<Rightarrow> Some (trim g) | None \<Rightarrow> None)
      in \<lparr>ex_amount = amount,
          ex_description = (if length entry > 100 then take 100 entry else entry),
          ex_category = category,
          ex_transactionType = transactionType,
          ex_merchantName = merchantName,
          ex_confidence = 7 / 10\<rparr>)"

subsection \<open>Facts about the fallback parser\<close>

lemma take_eq_iff_prefix: "take (length sub) s = sub \<longleftrightarrow> (\<exists>ss. s = sub @ ss)"
proof
  assume "take (length sub) s = sub"
  then have "s = sub @ drop (length sub) s"
    by (metis append_take_drop_id)
  then show "\<exists>ss. s = sub @ ss" ..
next
  assume "\<exists>ss. s = sub @ ss"
  then show "take (length sub) s = sub" by auto
qed

lemma includes_js_iff: "includes_js s sub \<longleftrightarrow> (\<exists>ps ss. s = ps @ sub @ ss)"
proof (induction s)
  case Nil
  show ?case by auto
next
  case (Cons c cs)
  show ?case
  proof
    assume "includes_js (c # cs) sub"
    then consider "take (length sub) (c # cs) = sub" | "includes_js cs sub" by auto
    then show "\<exists>ps ss. c # cs = ps @ sub @ ss"
    proof cases
      case 1
      then obtain ss where "c # cs = sub @ ss" using take_eq_iff_prefix [of sub "c # cs"] by blast
      then have "c # cs = [] @ sub @ ss" by simp
      then show ?thesis by blast
    next
      case 2
      with Cons obtain ps ss where "cs = ps @ sub @ ss" by blast
      then have "c # cs = (c # ps) @ sub @ ss" by simp
      then show ?thesis by blast
    qed
  next
    assume "\<exists>ps ss. c # cs = ps @ sub @ ss"
    then obtain ps ss where e: "c # cs = ps @ sub @ ss" by blast
    show "includes_js (c # cs) sub"
    proof (cases ps)
      case Nil
      with e have "take (length sub) (c # cs) = sub"
        using take_eq_iff_prefix [of sub "c # cs"] by auto
      then show ?thesis by simp
    next
      case (Cons p ps')
      with e have "cs = ps' @ sub @ ss" by simp
      with Cons.IH show ?thesis by auto
    qed
  qed
qed

lemma category_loop_range:
  "category_loop lowered m d = d \<or> category_loop lowered m d \<in> snd ` set m"
  by (induction lowered m d rule: category_loop.induct) auto

lemma categoryMap_in_enum: "snd ` set categoryMap \<subseteq> set category_enum"
  by (simp add: categoryMap_def category_enum_def)

lemma amountMatch_None:
  assumes "\<not> (\<exists>ps d ss. s = ps @ rupee # d # ss \<and> isDigit d)"
  shows "amountMatch s = None"
  using assms
proof (induction s)
  case Nil
  show ?case by simp
next
  case (Cons c cs)
  have a: "amount_at (c # cs) = None"
  proof (cases cs)
    case Nil
    then show ?thesis by simp
  next
    case (Cons d cs')
    have "\<not> (c = rupee \<and> isDigit d)"
    proof
      assume "c = rupee \<and> isDigit d"
      with Cons have "c # cs = [] @ rupee # d # cs' \<and> isDigit d" by simp
      with Cons.prems show False by blast
    qed
    with Cons show ?thesis by auto
  qed
  have "\<not> (\<exists>ps d ss. cs = ps @ rupee # d # ss \<and> isDigit d)"
  proof
    assume "\<exists>ps d ss. cs = ps @ rupee # d # ss \<and> isDigit d"
    then obtain ps d ss where "cs = ps @ rupee # d # ss" "isDigit d" by blast
    then have "c # cs = (c # ps) @ rupee # d # ss \<and> isDigit d" by simp
    with Cons.prems show False by blast
  qed
  with Cons.IH a show ?case by simp
qed

subsection \<open>Claims about the fallback parser\<close>

text \<open>An entry without a rupee sign that names a salary.\<close>

definition salary_entry :: jsstring where
  "salary_entry = of_ascii ''Got salary 50000''"

text \<open>
  Claim C6. The fallback parser is a function of its input alone and returns a record
  for every input string, whatever \<^verbatim>\<open>toLowerCase\<close> does: the category is one of the
  fixed enumeration; the transaction type is "expense" or "income", and it is "income"
  exactly when the lower-cased text contains one of the income keywords; the
  confidence is 0.7; the amount is 100 when no rupee sign followed by a digit occurs
  in the text; the description is the first 100 code units of the input.
\<close>

theorem fallback_parser_well_formed:
  "ex_category (parseExpenseWithFallback lc entry) \<in> set category_enum
   \<and> (ex_transactionType (parseExpenseWithFallback lc entry) = ''expense''
      \<or> ex_transactionType (parseExpenseWithFallback lc entry) = ''income'')
   \<and> (ex_transactionType (parseExpenseWithFallback lc entry) = ''income'' \<longleftrightarrow>
        (\<exists>keyword \<in> set incomeKeywords. \<exists>ps ss. lc entry = ps @ of_ascii keyword @ ss))
   \<and> ex_confidence (parseExpenseWithFallback lc entry) = 7 / 10
   \<and> ((\<not> (\<exists>ps d ss. entry = ps @ rupee # d # ss \<and> isDigit d)) \<longrightarrow>
        ex_amount (parseExpenseWithFallback lc entry) = 100)
   \<and> ex_description (parseExpenseWithFallback lc entry) = take 100 entry
   \<and> length (ex_description (parseExpenseWithFallback lc entry)) \<le> 100"
proof (intro conjI impI)
  have "category_loop (lc entry) categoryMap ''Miscellaneous'' \<in> set category_enum"
    using category_loop_range [of "lc entry" categoryMap "''Miscellaneous''"] categoryMap_in_enum
    by (auto simp: category_enum_def)
  then show "ex_category (parseExpenseWithFallback lc entry) \<in> set category_enum"
    by (simp add: parseExpenseWithFallback_def Let_def)
  show "ex_transactionType (parseExpenseWithFallback lc entry) = ''expense''
      \<or> ex_transactionType (parseExpenseWithFallback lc entry) = ''income''"
    by (simp add: parseExpenseWithFallback_def Let_def)
  show "ex_transactionType (parseExpenseWithFallback lc entry) = ''income'' \<longleftrightarrow>
        (\<exists>keyword \<in> set incomeKeywords. \<exists>ps ss. lc entry = ps @ of_ascii keyword @ ss)"
    by (simp add: parseExpenseWithFallback_def Let_def list_ex_iff includes_js_iff)
  show "ex_confidence (parseExpenseWithFallback lc entry) = 7 / 10"
    by (simp add: parseExpenseWithFallback_def Let_def)
  show "ex_description (parseExpenseWithFallback lc entry) = take 100 entry"
    by (simp add: parseExpenseWithFallback_def Let_def)
  show "length (ex_description (parseExpenseWithFallback lc entry)) \<le> 100"
    by (simp add: parseExpenseWithFallback_def Let_def)
next
  assume "\<not> (\<exists>ps d ss. entry = ps @ rupee # d # ss \<and> isDigit d)"
  then have "amountMatch entry = None" by (rule amountMatch_None)
  then show "ex_amount (parseExpenseWithFallback lc entry) = 100"
    by (simp add: parseExpenseWithFallback_def Let_def)
qed

theorem fallback_parser_well_formed_witness:
  "(\<not> (\<exists>ps d ss. salary_entry = ps @ rupee # d # ss \<and> isDigit d))
   \<and> (\<exists>keyword \<in> set incomeKeywords. \<exists>ps ss.
         toLowerCase_ascii salary_entry = ps @ of_ascii keyword @ ss)
   \<and> ex_amount (parseExpenseWithFallback toLowerCase_ascii salary_entry) = 100
   \<and> ex_transactionType (parseExpenseWithFallback toLowerCase_ascii salary_entry) = ''income''
   \<and> ex_category (parseExpenseWithFallback toLowerCase_ascii salary_entry) \<in> set category_enum"
proof -
  have "rupee \<notin> set salary_entry"
    by (simp add: salary_entry_def of_ascii_def rupee_def)
  then have a: "\<not> (\<exists>ps d ss. salary_entry = ps @ rupee # d # ss \<and> isDigit d)"
    by (metis in_set_conv_decomp)
  have "toLowerCase_ascii salary_entry = of_ascii ''got '' @ of_ascii ''salary'' @ of_ascii '' 50000''"
    by (simp add: salary_entry_def toLowerCase_ascii_def of_ascii_def)
  moreover have "''salary'' \<in> set incomeKeywords"
    by (simp add: incomeKeywords_def)
  ultimately have b: "\<exists>keyword \<in> set incomeKeywords. \<exists>ps ss.
         toLowerCase_ascii salary_entry = ps @ of_ascii keyword @ ss"
    by blast
  from a b fallback_parser_well_formed [of toLowerCase_ascii salary_entry]
  show ?thesis by blast
qed

text \<open>The input of scenario 1 and its lower-cased form.\<close>

definition scenario1 :: jsstring where
  "scenario1 = of_ascii ''Paid '' @ [rupee] @ of_ascii ''500 for groceries at BigBazaar''"

definition scenario1_lower :: jsstring where
  "scenario1_lower = of_ascii ''paid '' @ [rupee] @ of_ascii ''500 for groceries at bigbazaar''"

lemma scenario1_units:
  "scenario1 = [80, 97, 105, 100, 32, 8377, 53, 48, 48, 32, 102, 111, 114, 32, 103,
     114, 111, 99, 101, 114, 105, 101, 115, 32, 97, 116, 32, 66, 105, 103,
     66, 97, 122, 97, 97, 114]"
  by (simp add: scenario1_def of_ascii_def rupee_def)

lemma scenario1_amount: "amountMatch scenario1 = Some (of_ascii ''500'')"
  by (simp add: scenario1_units of_ascii_def isDigit_def rupee_def)

lemma scenario1_merchant: "merchantMatch scenario1 = Some (of_ascii ''BigBazaar'')"
  by (simp add: scenario1_units of_ascii_def isSpace_def isLetter_def)

lemma parseFloat_500: "parseFloat (filter (\<lambda>c. c \<noteq> 44) (of_ascii ''500'')) = 500"
  by (simp add: parseFloat_def of_ascii_def isDigit_def digits_value_def)

lemma trim_BigBazaar: "trim (of_ascii ''BigBazaar'') = of_ascii ''BigBazaar''"
  by (simp add: trim_def of_ascii_def isSpace_def)

lemma scenario1_category:
  "category_loop scenario1_lower categoryMap ''Miscellaneous'' = ''Food & Dining''"
  by (simp add: scenario1_lower_def categoryMap_def of_ascii_def rupee_def)

lemma scenario1_not_income:
  "\<not> list_ex (\<lambda>keyword. includes_js scenario1_lower (of_ascii keyword)) incomeKeywords"
  by (simp add: scenario1_lower_def incomeKeywords_def of_ascii_def rupee_def)

text \<open>
  Claim C7. On the text "Paid R500 for groceries at BigBazaar" (\<^verbatim>\<open>R\<close> the rupee sign)
  the fallback parser returns amount 500, category "Food & Dining", transaction type
  "expense", merchant name "BigBazaar" and confidence 0.7, given that lower-casing the
  text gives "paid R500 for groceries at bigbazaar".
\<close>

theorem scenario1_fallback:
  assumes "lc scenario1 = scenario1_lower"
  shows "parseExpenseWithFallback lc scenario1 =
     \<lparr>ex_amount = 500, ex_description = scenario1, ex_category = ''Food & Dining'',
      ex_transactionType = ''expense'', ex_merchantName = Some (of_ascii ''BigBazaar''),
      ex_confidence = 7 / 10\<rparr>"
proof -
  have "length scenario1 = 36" by (simp add: scenario1_units)
  then show ?thesis
    using scenario1_not_income
    by (simp add: parseExpenseWithFallback_def Let_def assms scenario1_amount
        scenario1_merchant parseFloat_500 trim_BigBazaar scenario1_category)
qed

theorem scenario1_fallback_witness:
  "toLowerCase_ascii scenario1 = scenario1_lower
   \<and> parseExpenseWithFallback toLowerCase_ascii scenario1 =
     \<lparr>ex_amount = 500, ex_description = scenario1, ex_category = ''Food & Dining'',
      ex_transactionType = ''expense'', ex_merchantName = Some (of_ascii ''BigBazaar''),
      ex_confidence = 7 / 10\<rparr>"
proof -
  have l: "toLowerCase_ascii scenario1 = scenario1_lower"
    by (simp add: scenario1_units scenario1_lower_def toLowerCase_ascii_def of_ascii_def
        rupee_def)
  from scenario1_fallback [of toLowerCase_ascii, OF l] l show ?thesis by simp
qed

subsection \<open>The recommendation generator\<close>

text \<open>
  The text-generation collaborator is external. \<open>mastra\<close> says what
  \<^verbatim>\<open>mastra?.getAgent('expenseAgent')\<close> gives: no agent (\<^verbatim>\<open>mastra\<close> or the agent is
  undefined), an exception, or an agent together with the outcome of its
  \<^verbatim>\<open>generate\<close> call on the prompt: the call rejects, or it resolves to a result
  whose \<^verbatim>\<open>text\<close> is a string or is missing. The prompt rendered from the two
  aggregations only reaches the collaborator and is not modelled.
\<close>

datatype generate_outcome = Rejects error | Resolves "jsstring option"

datatype mastra = NoAgent | GetAgentThrows error | HasAgent generate_outcome

text \<open>\<^verbatim>\<open>text.split('\n')\<close>.\<close>

fun split_lines :: "jsstring \<Rightarrow> jsstring list" where
  "split_lines [] = [[]]"
| "split_lines (c # cs) =
     (if c = 10 then [] # split_lines cs
      else (case split_lines cs of l # ls \<Rightarrow> (c # l) # ls | [] \<Rightarrow> [[c]]))"

text \<open>\<^verbatim>\<open>line.replace(/^\d+\.\s*/, '')\<close> and \<^verbatim>\<open>line.replace(/^[-*]\s*/, '')\<close>.\<close>

definition strip_number :: "jsstring \<Rightarrow> jsstring" where
  "strip_number line =
     (let ds = takeWhile isDigit line; r = dropWhile isDigit line in
      case r of
        d # rest \<Rightarrow> if ds \<noteq> [] \<and> d = 46 then dropWhile isSpace rest else line
      | [] \<Rightarrow> line)"

definition strip_bullet :: "jsstring \<Rightarrow> jsstring" where
  "strip_bullet line =
     (case line of
        c # rest \<Rightarrow> if c = 45 \<or> c = 42 then dropWhile isSpace rest else line
      | [] \<Rightarrow> line)"

definition parse_recommendations :: "jsstring \<Rightarrow> jsstring list" where
  "parse_recommendations text =
     take 5
       (filter (\<lambda>line. length line > 10)
         (map (\<lambda>line. trim (strip_bullet (strip_number line)))
           (filter (\<lambda>line. length (trim line) > 0) (split_lines text))))"

text \<open>The list returned when the answer has no usable line, and the list of the catch block.\<close>

definition default_recommendations :: "jsstring list" where
  "default_recommendations =
     map of_ascii
       [''Monitor your top spending categories and set monthly limits'',
        ''Consider using more UPI payments for better expense tracking'',
        ''Look for opportunities to reduce food delivery expenses by cooking at home'']"

definition catch_recommendations :: "jsstring list" where
  "catch_recommendations =
     map of_ascii
       [''Monitor your spending patterns regularly'',
        ''Set monthly budgets for each expense category'',
        ''Consider investing your savings in SIP or mutual funds'']"

text \<open>The body of the \<^verbatim>\<open>try\<close> block; a missing \<^verbatim>\<open>text\<close> makes \<^verbatim>\<open>split\<close> throw.\<close>

definition recommendations_try :: "mastra \<Rightarrow> error + jsstring list" where
  "recommendations_try m =
     (case m of
        GetAgentThrows e \<Rightarrow> Inl e
      | NoAgent \<Rightarrow> Inr []
      | HasAgent outcome \<Rightarrow>
          (case outcome of
             Rejects e \<Rightarrow> Inl e
           | Resolves None \<Rightarrow> Inl TypeError
           | Resolves (Some text) \<Rightarrow>
               (let recommendations = parse_recommendations text in
                Inr (if length recommendations > 0 then recommendations
                     else default_recommendations))))"

definition generateAIRecommendations ::
  "mastra \<Rightarrow> aggregation \<Rightarrow> aggregation option \<Rightarrow> error + jsstring list" where
  "generateAIRecommendations m currentData comparisonData =
     (case recommendations_try m of
        Inl e \<Rightarrow> Inr catch_recommendations
      | Inr recommendations \<Rightarrow> Inr recommendations)"

subsection \<open>The exposed operations and the connection pool\<close>

text \<open>
  Each operation creates a pool with \<^verbatim>\<open>getDbPool()\<close> and releases it with
  \<^verbatim>\<open>pool.end()\<close>. The operations below return, next to their result, the state in
  which they leave the pool.
\<close>

datatype pool_state = PoolOpen | PoolEnded

definition error_message :: "error \<Rightarrow> string" where
  "error_message e =
     (case e of RangeError \<Rightarrow> ''Invalid time value''
      | TypeError \<Rightarrow> ''Cannot read properties of undefined''
      | Error msg \<Rightarrow> msg)"

record insights_context =
  ctx_userId :: int
  ctx_analysisType :: analysis_type
  ctx_startDate :: "date option"
  ctx_endDate :: "date option"
  ctx_includeComparison :: bool
  ctx_includeAdvice :: bool

record comparison =
  previousPeriod :: "date \<times> date"
  incomeChange :: number
  expenseChange :: number
  savingsChange :: number

record insights =
  period :: "(date \<times> date) option"
  ins_totalIncome :: number
  ins_totalExpenses :: number
  netSavings :: number
  savingsRate :: number
  topExpenseCategories :: "category_entry list"
  spendingTrends :: "trend_entry list"
  paymentMethodBreakdown :: "payment_entry list"
  ins_comparison :: "comparison option"

datatype advice = Recommendations "jsstring list" | FailedToGenerate string

record insights_output =
  ins_success :: bool
  ins_insights :: insights
  ins_recommendations :: advice
  ins_financialHealth :: health

text \<open>The result of the \<^verbatim>\<open>catch\<close> block of \<^verbatim>\<open>expenseInsightsTool.execute\<close>.\<close>

definition insights_failure :: "error \<Rightarrow> insights_output" where
  "insights_failure e =
     \<lparr>ins_success = False,
      ins_insights =
        \<lparr>period = None, ins_totalIncome = Num 0, ins_totalExpenses = Num 0,
         netSavings = Num 0, savingsRate = Num 0, topExpenseCategories = [],
         spendingTrends = [],
         paymentMethodBreakdown = [], ins_comparison = None\<rparr>,
      ins_recommendations = FailedToGenerate (error_message e),
      ins_financialHealth =
        \<lparr>score = 0, status = ''Error'', areas = [''Unable to calculate'']\<rparr>\<rparr>"

definition expenseInsightsTool_execute ::
  "zone \<Rightarrow> int \<Rightarrow> pool \<Rightarrow> mastra \<Rightarrow> insights_context \<Rightarrow> insights_output \<times> pool_state" where
  "expenseInsightsTool_execute tz today db m context =
     (let pool = PoolOpen in
      case resolvePeriod tz today (ctx_analysisType context) (ctx_startDate context)
             (ctx_endDate context) of
        Inl e \<Rightarrow> (insights_failure e, pool)
      | Inr pr \<Rightarrow>
     (case getFinancialData db (ctx_userId context) (currentStartDate pr) (currentEndDate pr) of
        Inl e \<Rightarrow> (insights_failure e, pool)
      | Inr currentData \<Rightarrow>
     (case (if ctx_includeComparison context
            then map_sum id Some
                   (getFinancialData db (ctx_userId context) (previousStartDate pr)
                      (previousEndDate pr))
            else Inr None) of
        Inl e \<Rightarrow> (insights_failure e, pool)
      | Inr comparisonData \<Rightarrow>
     (let pool = PoolEnded in
      case (if ctx_includeAdvice context
            then generateAIRecommendations m currentData comparisonData else Inr []) of
        Inl e \<Rightarrow> (insights_failure e, pool)
      | Inr recommendations \<Rightarrow>
     (let financialHealth = calculateFinancialHealth currentData in
      (\<lparr>ins_success = True,
        ins_insights =
          \<lparr>period = Some (currentStartDate pr, currentEndDate pr),
           ins_totalIncome = totalIncome currentData,
           ins_totalExpenses = totalExpenses currentData,
           netSavings = js_sub (totalIncome currentData) (totalExpenses currentData),
           savingsRate =
             (if js_gt (totalIncome currentData) (Num 0)
              then js_mul (js_div (js_sub (totalIncome currentData)
                                     (totalExpenses currentData))
                             (totalIncome currentData)) (Num 100)
              else Num 0),
           topExpenseCategories = categoryBreakdown currentData,
           spendingTrends = dailyTrends currentData,
           paymentMethodBreakdown = paymentMethods currentData,
           ins_comparison =
             (case comparisonData of
                Some cmp \<Rightarrow>
                  Some \<lparr>previousPeriod = (previousStartDate pr, previousEndDate pr),
                        incomeChange =
                          js_mul (js_div (js_sub (totalIncome currentData) (totalIncome cmp))
                                    (Math_max (totalIncome cmp) (Num 1))) (Num 100),
                        expenseChange =
                          js_mul (js_div (js_sub (totalExpenses currentData)
                                            (totalExpenses cmp))
                                    (Math_max (totalExpenses cmp) (Num 1))) (Num 100),
                        savingsChange =
                          js_sub (js_sub (totalIncome currentData) (totalExpenses currentData))
                            (js_sub (totalIncome cmp) (totalExpenses cmp))\<rparr>
              | None \<Rightarrow> None)\<rparr>,
        ins_recommendations = Recommendations recommendations,
        ins_financialHealth = financialHealth\<rparr>, pool))))))"

text \<open>
  The ingestion tool. \<open>extraction\<close> is what the categorisation collaborator gives: an
  exception, a result without an object (also when there is no agent), or the
  extracted fields. The insert stores the columns of \<open>expense_row\<close>; the identifier it
  returns is the next one of the table's sequence, \<open>next_id\<close>.
\<close>

datatype extraction = ExtractThrows error | NoObject | Extracted extracted

record add_context =
  add_userId :: int
  naturalLanguageEntry :: jsstring
  add_amount :: "rat option"
  transactionDate :: "date option"
  paymentMethod :: "string option"

datatype add_message = Added string rat string | FailedToAdd string

record add_output =
  add_success :: bool
  expenseId :: "int option"
  suggestedCategory :: "string option"
  extractedAmount :: "rat option"
  message :: add_message

definition add_failure :: "error \<Rightarrow> add_output" where
  "add_failure e =
     \<lparr>add_success = False, expenseId = None, suggestedCategory = None,
      extractedAmount = None, message = FailedToAdd (error_message e)\<rparr>"

definition addExpenseTool_execute ::
  "(jsstring \<Rightarrow> jsstring) \<Rightarrow> int \<Rightarrow> int \<Rightarrow> pool \<Rightarrow> extraction \<Rightarrow> add_context
     \<Rightarrow> add_output \<times> pool_state \<times> pool" where
  "addExpenseTool_execute lc today next_id db extraction context =
     (let extracted =
            (case extraction of
               Extracted x \<Rightarrow> x
             | _ \<Rightarrow> parseExpenseWithFallback lc (naturalLanguageEntry context));
          finalAmount =
            (case add_amount context of
               Some a \<Rightarrow> if a = 0 then ex_amount extracted else a
             | None \<Rightarrow> ex_amount extracted);
          finalDate =
            (case transactionDate context of Some d \<Rightarrow> d | None \<Rightarrow> toISODate today);
          pool = PoolOpen
      in
      case pool_query db
             (filter (\<lambda>c. cat_name c = ex_category extracted) (expense_categories db)) of
        Inl e \<Rightarrow> (add_failure e, pool, db)
      | Inr categoryResult \<Rightarrow>
     (case categoryResult of
        [] \<Rightarrow> (add_failure (Error (''Category not found: '' @ ex_category extracted)), pool, db)
      | row # _ \<Rightarrow>
     (let categoryId = cat_id row in
      case pool_query db
             (db\<lparr>expenses := expenses db @
                  [\<lparr>user_id = add_userId context, amount = finalAmount,
                    category_id = Some categoryId,
                    transaction_type = ex_transactionType extracted,
                    payment_method =
                      Some (case paymentMethod context of
                              Some pm \<Rightarrow> if pm = [] then ''Not specified'' else pm
                            | None \<Rightarrow> ''Not specified''),
                    transaction_date = finalDate\<rparr>]\<rparr>) of
        Inl e \<Rightarrow> (add_failure e, pool, db)
      | Inr db' \<Rightarrow>
     (let expenseId = next_id;
          pool = PoolEnded
      in (\<lparr>add_success = True, expenseId = Some expenseId,
           suggestedCategory = Some (ex_category extracted),
           extractedAmount = Some (ex_amount extracted),
           message =
             Added (ex_transactionType extracted) finalAmount (ex_category extracted)\<rparr>,
          pool, db')))))"

subsection \<open>Claims about the recommendation generator\<close>

text \<open>
  An answer of the collaborator without a line of more than ten characters, and one
  with two usable lines.
\<close>

definition unusable_answer :: jsstring where
  "unusable_answer = of_ascii ''Sure!'' @ [10] @ of_ascii ''1. Save'' @ [10] @ of_ascii ''  ''"

definition usable_answer :: jsstring where
  "usable_answer =
     of_ascii ''Sure:'' @ [10] @ of_ascii ''1. Cook at home more often'' @ [10] @
     of_ascii ''- Track every UPI payment''"

text \<open>
  Claim C9 as stated fails. When no agent is available (\<^verbatim>\<open>mastra\<close> is undefined, or it
  has no agent of that name) the collaborator gives no output, and the generator
  returns the empty list, not one of its two fixed lists.
\<close>

theorem no_agent_empty_list_counterexample:
  "generateAIRecommendations NoAgent empty_aggregation None = Inr []
   \<and> catch_recommendations \<noteq> [] \<and> default_recommendations \<noteq> []"
  by (simp add: generateAIRecommendations_def recommendations_try_def
      catch_recommendations_def default_recommendations_def)

text \<open>
  Claim C9, as the code has it. \<open>generateAIRecommendations\<close> returns a list whatever
  the collaborator does: it never raises. When looking up the agent throws, when the
  \<^verbatim>\<open>generate\<close> call rejects or when its result has no text, the result is the fixed
  list of the catch block; when the text has no usable line, it is the fixed default
  list; when the text has usable lines, it is these lines (at most five). Both fixed
  lists have three entries. When no agent is available, no call is made and the result
  is the empty list; the result is empty in this case only.
\<close>

theorem recommendations_never_raise:
  "(\<exists>r. generateAIRecommendations m currentData comparisonData = Inr r \<and>
        (r = [] \<longleftrightarrow> m = NoAgent))
   \<and> generateAIRecommendations NoAgent currentData comparisonData = Inr []
   \<and> generateAIRecommendations (GetAgentThrows e) currentData comparisonData
       = Inr catch_recommendations
   \<and> generateAIRecommendations (HasAgent (Rejects e)) currentData comparisonData
       = Inr catch_recommendations
   \<and> generateAIRecommendations (HasAgent (Resolves None)) currentData comparisonData
       = Inr catch_recommendations
   \<and> (parse_recommendations text = [] \<longrightarrow>
        generateAIRecommendations (HasAgent (Resolves (Some text))) currentData comparisonData
          = Inr default_recommendations)
   \<and> (parse_recommendations text' \<noteq> [] \<longrightarrow>
        generateAIRecommendations (HasAgent (Resolves (Some text'))) currentData comparisonData
          = Inr (parse_recommendations text') \<and>
        length (parse_recommendations text') \<le> 5)
   \<and> length catch_recommendations = 3 \<and> length default_recommendations = 3"
proof (intro conjI impI)
  have c: "catch_recommendations \<noteq> []" by (simp add: catch_recommendations_def)
  have d: "default_recommendations \<noteq> []" by (simp add: default_recommendations_def)
  have "generateAIRecommendations m currentData comparisonData =
      Inr (case m of
             NoAgent \<Rightarrow> []
           | GetAgentThrows e \<Rightarrow> catch_recommendations
           | HasAgent (Rejects e) \<Rightarrow> catch_recommendations
           | HasAgent (Resolves None) \<Rightarrow> catch_recommendations
           | HasAgent (Resolves (Some t)) \<Rightarrow>
               if parse_recommendations t = [] then default_recommendations
               else parse_recommendations t)"
    by (simp add: generateAIRecommendations_def recommendations_try_def Let_def
        split: mastra.split generate_outcome.split option.split)
  moreover have "(case m of
             NoAgent \<Rightarrow> []
           | GetAgentThrows e \<Rightarrow> catch_recommendations
           | HasAgent (Rejects e) \<Rightarrow> catch_recommendations
           | HasAgent (Resolves None) \<Rightarrow> catch_recommendations
           | HasAgent (Resolves (Some t)) \<Rightarrow>
               if parse_recommendations t = [] then default_recommendations
               else parse_recommendations t) = [] \<longleftrightarrow> m = NoAgent"
    using c d by (simp split: mastra.split generate_outcome.split option.split)
  ultimately show "\<exists>r. generateAIRecommendations m currentData comparisonData = Inr r \<and>
        (r = [] \<longleftrightarrow> m = NoAgent)"
    by blast
  show "generateAIRecommendations NoAgent currentData comparisonData = Inr []"
    by (simp add: generateAIRecommendations_def recommendations_try_def)
  show "generateAIRecommendations (GetAgentThrows e) currentData comparisonData
       = Inr catch_recommendations"
    by (simp add: generateAIRecommendations_def recommendations_try_def)
  show "generateAIRecommendations (HasAgent (Rejects e)) currentData comparisonData
       = Inr catch_recommendations"
    by (simp add: generateAIRecommendations_def recommendations_try_def)
  show "generateAIRecommendations (HasAgent (Resolves None)) currentData comparisonData
       = Inr catch_recommendations"
    by (simp add: generateAIRecommendations_def recommendations_try_def)
  show "length catch_recommendations = 3" by (simp add: catch_recommendations_def)
  show "length default_recommendations = 3" by (simp add: default_recommendations_def)
next
  assume "parse_recommendations text = []"
  then show "generateAIRecommendations (HasAgent (Resolves (Some text))) currentData comparisonData
          = Inr default_recommendations"
    by (simp add: generateAIRecommendations_def recommendations_try_def)
next
  assume "parse_recommendations text' \<noteq> []"
  then show "generateAIRecommendations (HasAgent (Resolves (Some text'))) currentData comparisonData
          = Inr (parse_recommendations text')"
    by (simp add: generateAIRecommendations_def recommendations_try_def)
  show "length (parse_recommendations text') \<le> 5"
    by (simp add: parse_recommendations_def)
qed

theorem recommendations_never_raise_witness:
  "parse_recommendations unusable_answer = []
   \<and> generateAIRecommendations (HasAgent (Resolves (Some unusable_answer))) empty_aggregation None
       = Inr default_recommendations
   \<and> parse_recommendations usable_answer =
       [of_ascii ''Cook at home more often'', of_ascii ''Track every UPI payment'']
   \<and> generateAIRecommendations (HasAgent (Resolves (Some usable_answer))) empty_aggregation None
       = Inr [of_ascii ''Cook at home more often'', of_ascii ''Track every UPI payment'']
   \<and> length default_recommendations = 3"
proof -
  have p: "parse_recommendations unusable_answer = []"
    by (simp add: unusable_answer_def parse_recommendations_def of_ascii_def trim_def
        strip_number_def strip_bullet_def isSpace_def isDigit_def)
  have q: "parse_recommendations usable_answer =
       [of_ascii ''Cook at home more often'', of_ascii ''Track every UPI payment'']"
    by (simp add: usable_answer_def parse_recommendations_def of_ascii_def trim_def
        strip_number_def strip_bullet_def isSpace_def isDigit_def)
  then have q': "parse_recommendations usable_answer \<noteq> []" by simp
  from p q q' recommendations_never_raise
      [of "HasAgent (Resolves (Some usable_answer))" empty_aggregation None undefined
        unusable_answer usable_answer]
  show ?thesis by simp
qed

subsection \<open>Claims about the connection pool\<close>

text \<open>
  An answer of the categorisation collaborator whose category is not a row of
  \<^verbatim>\<open>expense_categories\<close>, an ingestion request and a monthly insight request.
\<close>

definition groceries_extraction :: extracted where
  "groceries_extraction =
     \<lparr>ex_amount = 500, ex_description = of_ascii ''Groceries at BigBazaar'',
      ex_category = ''Groceries'', ex_transactionType = ''expense'',
      ex_merchantName = Some (of_ascii ''BigBazaar''), ex_confidence = 19 / 20\<rparr>"

definition groceries_request :: add_context where
  "groceries_request =
     \<lparr>add_userId = 1, naturalLanguageEntry = scenario1, add_amount = None,
      transactionDate = None, paymentMethod = Some ''UPI''\<rparr>"

definition monthly_request :: insights_context where
  "monthly_request =
     \<lparr>ctx_userId = 1, ctx_analysisType = monthly, ctx_startDate = None, ctx_endDate = None,
      ctx_includeComparison = True, ctx_includeAdvice = True\<rparr>"

text \<open>Both operations end the pool exactly when they succeed.\<close>

lemma recommendations_not_Inl:
  "generateAIRecommendations m currentData comparisonData \<noteq> Inl e"
  by (simp add: generateAIRecommendations_def split: sum.split)

lemma insights_pool_state:
  "snd (expenseInsightsTool_execute tz today db m context) =
     (if ins_success (fst (expenseInsightsTool_execute tz today db m context))
      then PoolEnded else PoolOpen)"
  by (auto simp: expenseInsightsTool_execute_def Let_def insights_failure_def
      recommendations_not_Inl split: sum.split)

lemma add_pool_state:
  "fst (snd (addExpenseTool_execute lc today next_id db extraction context)) =
     (if add_success (fst (addExpenseTool_execute lc today next_id db extraction context))
      then PoolEnded else PoolOpen)"
  by (simp add: addExpenseTool_execute_def Let_def add_failure_def
      split: sum.split list.split)

text \<open>
  Claim C10 fails on the code. When the category that the collaborator extracted is
  not in the database, \<open>addExpenseTool_execute\<close> returns its failure result and leaves
  the pool open; when the database is unreachable, \<open>expenseInsightsTool_execute\<close>
  returns its failure result and leaves the pool open. In both, \<^verbatim>\<open>pool.end()\<close> stands
  inside the \<^verbatim>\<open>try\<close> block after the queries, and the \<^verbatim>\<open>catch\<close> block returns
  without it.
\<close>

theorem pool_left_open_on_error:
  "addExpenseTool_execute lc today next_id sample_pool (Extracted groceries_extraction)
       groceries_request =
     (add_failure (Error ''Category not found: Groceries''), PoolOpen, sample_pool)
   \<and> add_success (add_failure (Error ''Category not found: Groceries'')) = False
   \<and> expenseInsightsTool_execute (fixed_offset 0) 1710496800000 (sample_pool\<lparr>reachable := False\<rparr>) m
       monthly_request =
     (insights_failure (Error ''connection refused''), PoolOpen)
   \<and> ins_success (insights_failure (Error ''connection refused'')) = False"
proof (intro conjI)
  show "addExpenseTool_execute lc today next_id sample_pool (Extracted groceries_extraction)
       groceries_request =
     (add_failure (Error ''Category not found: Groceries''), PoolOpen, sample_pool)"
    by (simp add: addExpenseTool_execute_def Let_def groceries_extraction_def
        sample_pool_def pool_query_def)
  show "add_success (add_failure (Error ''Category not found: Groceries'')) = False"
    by (simp add: add_failure_def)
  have "resolvePeriod (fixed_offset 0) 1710496800000 monthly None None =
     Inr \<lparr>currentStartDate = \<lparr>year = 2024, month = 3, day = 1\<rparr>,
          currentEndDate = \<lparr>year = 2024, month = 3, day = 31\<rparr>,
          previousStartDate = \<lparr>year = 2024, month = 2, day = 1\<rparr>,
          previousEndDate = \<lparr>year = 2024, month = 2, day = 29\<rparr>\<rparr>"
    by code_simp
  then show "expenseInsightsTool_execute (fixed_offset 0) 1710496800000 (sample_pool\<lparr>reachable := False\<rparr>) m
       monthly_request =
     (insights_failure (Error ''connection refused''), PoolOpen)"
    by (simp add: expenseInsightsTool_execute_def Let_def monthly_request_def
        getFinancialData_def pool_query_def)
  show "ins_success (insights_failure (Error ''connection refused'')) = False"
    by (simp add: insights_failure_def)
qed

end
